theory Spec2Isabelle
  imports Complex_Main "HOL-Library.AList" "HOL-Library.Char_ord" "HOL-Library.List_Lexorder"
begin

section \<open>Time and sample values\<close>

text \<open>
  \<open>timeseries.Time\<close> and \<open>timeseries.Duration\<close> are 64-bit integers counting seconds.
  They are modelled as integers. Where the code adds and subtracts Unix timestamps and
  step widths of a world, which stay far from the 64-bit range, the arithmetic is that
  of the integers. In \<open>Fill\<close>, which takes any window and any input, every sum,
  difference, product and quotient is reduced to the 64-bit range by \<open>wrap64\<close>, as
  Go's \<open>int64\<close> and \<open>int\<close> arithmetic wraps around.
\<close>

type_synonym Time = int
type_synonym Duration = int

definition wrap64 :: "int \<Rightarrow> int" where
  "wrap64 x = (x + 2 ^ 63) mod 2 ^ 64 - 2 ^ 63"

text \<open>
  A sample is a Go \<open>float32\<close>. The model separates the one value the code tests for,
  the not-a-number sentinel \<open>NaN\<close> ("missing"), from the numbers, which are carried as
  reals: rounding and the two infinities of the binary format are outside the model.
  Every comparison with \<open>NaN\<close> is false, and arithmetic with a \<open>NaN\<close> operand
  is \<open>NaN\<close>, as in IEEE 754.
\<close>

datatype float32 = NaN | Fin real

fun IsNaN :: "float32 \<Rightarrow> bool" where
  "IsNaN NaN = True"
| "IsNaN (Fin _) = False"

fun fadd :: "float32 \<Rightarrow> float32 \<Rightarrow> float32" where
  "fadd (Fin a) (Fin b) = Fin (a + b)"
| "fadd _ _ = NaN"

fun fsub :: "float32 \<Rightarrow> float32 \<Rightarrow> float32" where
  "fsub (Fin a) (Fin b) = Fin (a - b)"
| "fsub _ _ = NaN"

fun fge :: "float32 \<Rightarrow> float32 \<Rightarrow> bool" where
  "fge (Fin a) (Fin b) = (a \<ge> b)"
| "fge _ _ = False"

fun fgt :: "float32 \<Rightarrow> float32 \<Rightarrow> bool" where
  "fgt (Fin a) (Fin b) = (a > b)"
| "fgt _ _ = False"

fun feq :: "float32 \<Rightarrow> float32 \<Rightarrow> bool" where
  "feq (Fin a) (Fin b) = (a = b)"
| "feq _ _ = False"

text \<open>Go's integer division truncates towards zero; its remainder takes the dividend's sign.\<close>

definition go_div :: "int \<Rightarrow> int \<Rightarrow> int" where
  "go_div a b = sgn a * sgn b * (\<bar>a\<bar> div \<bar>b\<bar>)"

definition go_mod :: "int \<Rightarrow> int \<Rightarrow> int" where
  "go_mod a b = a - b * go_div a b"

text \<open>
  Modelled from the spec: \<open>Time.Truncate\<close> (the file defining \<open>timeseries.Time\<close> is
  not among the source files read). The spec says \<open>Set\<close> "truncates \<open>t\<close> to \<open>step\<close>":
  the time is rounded to a multiple of the step with Go's remainder.
\<close>

definition Truncate :: "Time \<Rightarrow> Duration \<Rightarrow> Time" where
  "Truncate t d = t - go_mod t d"

section \<open>Reduction functions\<close>

type_synonym F = "Time \<Rightarrow> float32 \<Rightarrow> float32 \<Rightarrow> float32"

definition Any :: F where
  "Any t v1 v2 = (if \<not> IsNaN v1 then v1 else v2)"

definition NanSum :: F where
  "NanSum t acc v =
     (let sum1 = (if IsNaN acc then Fin 0 else acc);
          sum2 = (if \<not> IsNaN v then fadd sum1 v else sum1)
      in sum2)"

section \<open>The time series\<close>

text \<open>
  The struct \<open>TimeSeries\<close>; the code handles it through a pointer that may be nil, so a
  series in the model is a \<open>TimeSeries option\<close> and \<open>None\<close> is the nil pointer.
\<close>

record TimeSeries =
  ts_from :: Time
  ts_step :: Duration
  ts_data :: "float32 list"

datatype panic = NilDereference | IndexOutOfRange | DivideByZero | NegativeLen

definition NewWithData :: "Time \<Rightarrow> Duration \<Rightarrow> float32 list \<Rightarrow> TimeSeries option" where
  "NewWithData from step data = Some \<lparr>ts_from = from, ts_step = step, ts_data = data\<rparr>"

definition New :: "Time \<Rightarrow> nat \<Rightarrow> Duration \<Rightarrow> TimeSeries option" where
  "New from pointsCount step = NewWithData from step (replicate pointsCount NaN)"

definition IsEmpty :: "TimeSeries option \<Rightarrow> bool" where
  "IsEmpty ts = (ts = None)"

definition len :: "TimeSeries option \<Rightarrow> nat" where
  "len ts = (case ts of None \<Rightarrow> 0 | Some s \<Rightarrow> length (ts_data s))"

text \<open>
  Modelled from the spec: the \<open>Iterator\<close> type with \<open>Next\<close> and \<open>Value\<close> (its file is
  not among the source files read). \<open>Iter\<close> builds it with index \<open>-1\<close> and time
  \<open>from - step\<close>; by the spec it yields the \<open>(time, value)\<close> pairs in chronological
  order, missing values included. The model is the list of the pairs still to come, so
  \<open>Next\<close> is a step to the tail and a loop \<open>for iter.Next()\<close> is a recursion over the list.
  The iterator of the nil series has no data and yields nothing.
\<close>

type_synonym Iterator = "(Time \<times> float32) list"

definition Iter :: "TimeSeries option \<Rightarrow> Iterator" where
  "Iter ts = (case ts of
      None \<Rightarrow> []
    | Some s \<Rightarrow> zip (map (\<lambda>i. ts_from s - ts_step s + (int i + 1) * ts_step s) [0..<length (ts_data s)])
                    (ts_data s))"

text \<open>\<open>Last\<close> indexes \<open>data[len(data)-1]\<close>: on a series with no points that is a panic.\<close>

definition Last :: "TimeSeries option \<Rightarrow> panic + float32" where
  "Last ts = (case ts of
      None \<Rightarrow> Inr NaN
    | Some s \<Rightarrow> (if ts_data s = [] then Inl IndexOutOfRange else Inr (last (ts_data s))))"

definition Get :: "TimeSeries option \<Rightarrow> TimeSeries option" where
  "Get ts = ts"

text \<open>\<open>LastN\<close> allocates \<open>n\<close> values first: a negative \<open>n\<close> is a panic, on any series.\<close>

definition LastN :: "TimeSeries option \<Rightarrow> int \<Rightarrow> panic + float32 list" where
  "LastN ts n =
     (if n < 0 then Inl NegativeLen
      else case ts of
          None \<Rightarrow> Inr (replicate (nat n) NaN)
        | Some s \<Rightarrow>
            (if n = 0 then Inr (replicate (nat n) NaN)
             else let l = int (length (ts_data s))
                  in if l - n < 0 then Inr (replicate (nat (n - l)) NaN @ ts_data s)
                     else Inr (drop (nat (l - n)) (ts_data s))))"

definition Reduce :: "F \<Rightarrow> TimeSeries option \<Rightarrow> float32" where
  "Reduce f ts = (if IsEmpty ts then NaN
                  else foldl (\<lambda>accumulator (t, v). f t accumulator v) NaN (Iter ts))"

definition Map_ts :: "(Time \<Rightarrow> float32 \<Rightarrow> float32) \<Rightarrow> TimeSeries option \<Rightarrow> TimeSeries option" where
  "Map_ts f ts = (case ts of
      None \<Rightarrow> None
    | Some s \<Rightarrow> NewWithData (ts_from s) (ts_step s) (map (\<lambda>(t, v). f t v) (Iter ts)))"

definition WithNewValue :: "float32 \<Rightarrow> TimeSeries option \<Rightarrow> TimeSeries option" where
  "WithNewValue newValue ts = (case ts of
      None \<Rightarrow> None
    | Some s \<Rightarrow> NewWithData (ts_from s) (ts_step s) (replicate (len ts) newValue))"

definition LastNotNull :: "TimeSeries option \<Rightarrow> Time \<times> float32" where
  "LastNotNull ts = (if IsEmpty ts then (0, NaN)
     else foldl (\<lambda>(tt, vv) (t, v). if \<not> IsNaN v then (t, v) else (tt, vv)) (0, Fin 0) (Iter ts))"

text \<open>
  The loop of \<open>Increase\<close>: it runs while both iterators have a next pair, carrying the
  previous counter value and the previous status value.
\<close>

fun Increase_loop :: "float32 \<Rightarrow> float32 \<Rightarrow> Iterator \<Rightarrow> Iterator \<Rightarrow> float32 list" where
  "Increase_loop prev prevStatus ((t, v) # iter) ((t', s) # statusIter) =
     (let d = (if \<not> IsNaN v \<and> \<not> IsNaN prev
               then (if fge (fsub v prev) (Fin 0) then fsub v prev else v)
               else if IsNaN prev \<and> feq prevStatus (Fin 1) then v
               else NaN)
      in d # Increase_loop v s iter statusIter)"
| "Increase_loop prev prevStatus _ _ = []"

definition Increase :: "TimeSeries option \<Rightarrow> TimeSeries option \<Rightarrow> TimeSeries option" where
  "Increase x status = (case x of
      None \<Rightarrow> None
    | Some xs \<Rightarrow> (if IsEmpty status then None
                 else NewWithData (ts_from xs) (ts_step xs)
                        (Increase_loop NaN NaN (Iter x) (Iter status))))"

text \<open>
  \<open>Aggregate2\<close> allocates \<open>x.len()\<close> zeros and overwrites a prefix: where \<open>y\<close> is shorter
  than \<open>x\<close> the tail keeps Go's zero value.
\<close>

definition Aggregate2 ::
  "TimeSeries option \<Rightarrow> TimeSeries option \<Rightarrow> (float32 \<Rightarrow> float32 \<Rightarrow> float32) \<Rightarrow> TimeSeries option" where
  "Aggregate2 x y f = (case x of
      None \<Rightarrow> None
    | Some xs \<Rightarrow> (if IsEmpty y then None
                 else NewWithData (ts_from xs) (ts_step xs)
                        (map (\<lambda>((t, xv), (t', yv)). f xv yv) (zip (Iter x) (Iter y))
                         @ replicate (len x - len y) (Fin 0))))"

subsection \<open>Fill\<close>

text \<open>
  The local variables of \<open>Fill\<close> and the array \<open>ts.data\<close> it writes to. \<open>fs_writes\<close> is
  not a variable of the code: it records, in order, every assignment
  \<open>ts.data[iNext] = data[i]\<close> the loop performs, as the pair of index and value.
\<close>

record Fill_state =
  fs_changed :: bool
  fs_tNext :: Time
  fs_iNext :: int
  fs_t :: Time
  fs_data :: "float32 list"
  fs_writes :: "(int \<times> float32) list"

text \<open>
  One pass through the body of the loop for the element \<open>d = data[i]\<close>. The result is a
  panic, or the new state with a flag that is true when the loop breaks. The code guards
  the assignment by \<open>iNext < len(ts.data)\<close> only, so a negative index is a panic, and so
  is the division by a zero step. The arithmetic wraps around at 64 bits.
\<close>

definition Fill_step ::
  "Time \<Rightarrow> Duration \<Rightarrow> Time \<Rightarrow> Duration \<Rightarrow> float32 \<Rightarrow> Fill_state \<Rightarrow> panic + (bool \<times> Fill_state)" where
  "Fill_step tsfrom tsstep to step d st =
     (let t = wrap64 (fs_t st + step); st1 = st\<lparr>fs_t := t\<rparr> in
      if t > to then Inr (True, st1)
      else if t < tsfrom then Inr (False, st1)
      else if t < fs_tNext st1 then Inr (False, st1)
      else if fs_iNext st1 = - 1 \<and> tsstep = 0 then Inl DivideByZero
      else
        let st2 = (if fs_iNext st1 = - 1
                   then st1\<lparr>fs_iNext := wrap64 (go_div (wrap64 (t - tsfrom)) tsstep),
                            fs_tNext := Truncate t tsstep\<rparr>
                   else st1) in
        if fs_iNext st2 < int (length (fs_data st2)) then
          (if fs_iNext st2 < 0 then Inl IndexOutOfRange
           else Inr (False,
             st2\<lparr>fs_data := (fs_data st2)[nat (fs_iNext st2) := d],
                 fs_writes := fs_writes st2 @ [(fs_iNext st2, d)],
                 fs_tNext := wrap64 (fs_tNext st2 + tsstep),
                 fs_iNext := wrap64 (fs_iNext st2 + 1),
                 fs_changed := (if \<not> fs_changed st2 \<and> \<not> IsNaN d then True
                                else fs_changed st2)\<rparr>))
        else Inr (False, st2))"

fun Fill_loop ::
  "Time \<Rightarrow> Duration \<Rightarrow> Time \<Rightarrow> Duration \<Rightarrow> float32 list \<Rightarrow> Fill_state \<Rightarrow> panic + Fill_state" where
  "Fill_loop tsfrom tsstep to step [] st = Inr st"
| "Fill_loop tsfrom tsstep to step (d # ds) st =
     (case Fill_step tsfrom tsstep to step d st of
        Inl e \<Rightarrow> Inl e
      | Inr (True, st') \<Rightarrow> Inr st'
      | Inr (False, st') \<Rightarrow> Fill_loop tsfrom tsstep to step ds st')"

text \<open>
  \<open>Fill\<close> returns \<open>changed\<close>; the model returns with it the series after the call and
  the record of the assignments. On the nil series \<open>ts.len()\<close> is 0 and reading
  \<open>ts.from\<close> is a nil dereference.
\<close>

definition Fill ::
  "TimeSeries option \<Rightarrow> Time \<Rightarrow> Duration \<Rightarrow> float32 list
     \<Rightarrow> panic + (bool \<times> TimeSeries \<times> (int \<times> float32) list)" where
  "Fill ts from step data = (case ts of
      None \<Rightarrow> Inl NilDereference
    | Some s \<Rightarrow>
        (let to = wrap64 (ts_from s + wrap64 ((int (len ts) - 1) * ts_step s)) in
         case Fill_loop (ts_from s) (ts_step s) to step data
                \<lparr>fs_changed = False, fs_tNext = 0, fs_iNext = - 1,
                 fs_t = wrap64 (from + wrap64 (- step)),
                 fs_data = ts_data s, fs_writes = []\<rparr> of
           Inl e \<Rightarrow> Inl e
         | Inr st \<Rightarrow> Inr (fs_changed st, s\<lparr>ts_data := fs_data st\<rparr>, fs_writes st)))"




section \<open>The world\<close>

text \<open>
  Modelled from the spec: the constants of \<open>model.ApplicationKind\<close>, a string type
  (the file declaring them is not among the source files read); the spec names the kinds
  Deployment, StatefulSet, DaemonSet, StaticPods and ReplicaSet.
\<close>

type_synonym ApplicationKind = string

definition ApplicationKindDeployment :: ApplicationKind where
  "ApplicationKindDeployment = ''Deployment''"

definition ApplicationKindStaticPods :: ApplicationKind where
  "ApplicationKindStaticPods = ''StaticPods''"

definition ApplicationKindReplicaSet :: ApplicationKind where
  "ApplicationKindReplicaSet = ''ReplicaSet''"

record ApplicationId =
  aid_Namespace :: string
  aid_Kind :: ApplicationKind
  aid_Name :: string

definition NewApplicationId :: "string \<Rightarrow> ApplicationKind \<Rightarrow> string \<Rightarrow> ApplicationId" where
  "NewApplicationId ns kind name = \<lparr>aid_Namespace = ns, aid_Kind = kind, aid_Name = name\<rparr>"

text \<open>
  Of the structs of the model package the fields are kept that the functions below read
  or write. A Go map from strings is an association list in insertion order; where the
  code ranges over such a map the order is not fixed by Go, and the model ranges over the
  list.
\<close>

record Container =
  c_Image :: string

record Pod =
  pod_ReplicaSet :: string
  pod_LifeSpan :: "TimeSeries option"

record Listen =
  l_IP :: string
  l_Port :: string
  l_Proxied :: bool

record Instance =
  inst_Name :: string
  inst_Node :: "nat option"
  inst_Pod :: "Pod option"
  inst_Containers :: "(string \<times> Container) list"
  inst_TcpListens :: "(Listen \<times> bool) list"

record MetricsSnapshot =
  ms_Timestamp :: Time
  ms_Duration :: Duration

record ApplicationDeploymentNotifications =
  n_State :: int
  n_Slack_State :: int
  n_Teams_State :: int

record ApplicationDeployment =
  d_ApplicationId :: ApplicationId
  d_Name :: string
  d_StartedAt :: Time
  d_FinishedAt :: Time
  d_Details :: "string list option"
  d_MetricsSnapshot :: "MetricsSnapshot option"
  d_Notifications :: "ApplicationDeploymentNotifications option"

record Application =
  app_Id :: ApplicationId
  app_Category :: string
  app_Instances :: "Instance list"
  app_Deployments :: "ApplicationDeployment list"

record Node =
  node_Name :: string

text \<open>
  The slices of the world hold pointers. A pointer to an application is its position in
  \<open>w_Applications\<close>, a pointer to an instance its position in \<open>app_Instances\<close>, and nil
  is \<open>None\<close>: the code only appends to these slices, so a position keeps its object.
\<close>

record World =
  w_Nodes :: "Node list"
  w_Applications :: "Application list"
  w_KubeStateMetricsInstalled :: bool

definition NewWorld :: "Time \<Rightarrow> Time \<Rightarrow> Duration \<Rightarrow> World" where
  "NewWorld from to step =
     \<lparr>w_Nodes = [], w_Applications = [], w_KubeStateMetricsInstalled = False\<rparr>"

text \<open>The position of the first element that satisfies \<open>P\<close>, counted from \<open>i\<close>.\<close>

fun first_index :: "('a \<Rightarrow> bool) \<Rightarrow> 'a list \<Rightarrow> nat \<Rightarrow> nat option" where
  "first_index P [] i = None"
| "first_index P (x # xs) i = (if P x then Some i else first_index P xs (Suc i))"

definition GetApplication :: "World \<Rightarrow> ApplicationId \<Rightarrow> nat option" where
  "GetApplication w id' = first_index (\<lambda>a. app_Id a = id') (w_Applications w) 0"

text \<open>
  Modelled from the spec: \<open>NewApplication\<close> (the file of \<open>model.Application\<close> is not
  among the source files read): a new application carries the id and owns nothing yet.
\<close>

definition NewApplication :: "ApplicationId \<Rightarrow> Application" where
  "NewApplication id' =
     \<lparr>app_Id = id', app_Category = [], app_Instances = [], app_Deployments = []\<rparr>"

definition GetOrCreateApplication :: "World \<Rightarrow> ApplicationId \<Rightarrow> nat \<times> World" where
  "GetOrCreateApplication w id' = (case GetApplication w id' of
      Some app \<Rightarrow> (app, w)
    | None \<Rightarrow> (length (w_Applications w),
               w\<lparr>w_Applications := w_Applications w @ [NewApplication id']\<rparr>))"

definition GetNode :: "World \<Rightarrow> string \<Rightarrow> nat option" where
  "GetNode w name = first_index (\<lambda>n. node_Name n = name) (w_Nodes w) 0"

text \<open>
  Modelled from the spec: \<open>GetOrCreateInstance\<close> (the file of \<open>model.Application\<close> is
  not among the source files read). By the spec an application owns its instances "keyed
  by instance name, created on demand", and repeated observations of one pod reach the
  same object: the instance of that name is returned, or a new one on the given node is
  appended.
\<close>

definition NewInstance :: "string \<Rightarrow> nat option \<Rightarrow> Instance" where
  "NewInstance name node =
     \<lparr>inst_Name = name, inst_Node = node, inst_Pod = None, inst_Containers = [],
      inst_TcpListens = []\<rparr>"

definition GetOrCreateInstance :: "Application \<Rightarrow> string \<Rightarrow> nat option \<Rightarrow> nat \<times> Application" where
  "GetOrCreateInstance app name node =
     (case first_index (\<lambda>i. inst_Name i = name) (app_Instances app) 0 of
        Some i \<Rightarrow> (i, app)
      | None \<Rightarrow> (length (app_Instances app),
                 app\<lparr>app_Instances := app_Instances app @ [NewInstance name node]\<rparr>))"

text \<open>An assignment through a pointer to an instance.\<close>

definition update_instance :: "World \<Rightarrow> nat \<Rightarrow> nat \<Rightarrow> (Instance \<Rightarrow> Instance) \<Rightarrow> World" where
  "update_instance w a i f =
     w\<lparr>w_Applications := (w_Applications w)
         [a := (w_Applications w ! a)\<lparr>app_Instances :=
                  (app_Instances (w_Applications w ! a))
                    [i := f (app_Instances (w_Applications w ! a) ! i)]\<rparr>]\<rparr>"

section \<open>Kubernetes metadata: pods\<close>

text \<open>A label set; reading a label that is not there gives the empty string, as in Go.\<close>

type_synonym Labels = "string \<rightharpoonup> string"

definition label :: "Labels \<Rightarrow> string \<Rightarrow> string" where
  "label m k = (case m k of None \<Rightarrow> [] | Some v \<Rightarrow> v)"

record MetricValues =
  mv_Labels :: Labels
  mv_Values :: "TimeSeries option"

text \<open>\<open>strings.TrimSuffix\<close> of the Go library.\<close>

definition TrimSuffix :: "string \<Rightarrow> string \<Rightarrow> string" where
  "TrimSuffix s suffix' =
     (if length suffix' \<le> length s \<and> drop (length s - length suffix') s = suffix'
      then take (length s - length suffix') s else s)"

text \<open>
  The \<open>switch\<close> of \<open>podInfo\<close> that chooses the application of a pod; \<open>None\<close> is the
  \<open>default\<close> branch, which goes on to the next sample.
\<close>

definition podAppId :: "Labels \<Rightarrow> ApplicationId option" where
  "podAppId ls =
     (let pod = label ls ''pod'';
          ns = label ls ''namespace'';
          ownerName = label ls ''created_by_name'';
          ownerKind = label ls ''created_by_kind'';
          nodeName = label ls ''node''
      in if ownerKind = [] \<or> ownerKind = ''<none>'' \<or> ownerKind = ''Node''
         then Some (NewApplicationId ns ApplicationKindStaticPods
                      (TrimSuffix pod (''-'' @ nodeName)))
         else if ownerName \<noteq> [] \<and> ownerKind \<noteq> []
         then Some (NewApplicationId ns ownerKind ownerName)
         else None)"

text \<open>
  The body of the loop of \<open>podInfo\<close> for one sample, on the world and the map \<open>pods\<close>
  from pod uid to instance. \<open>net.ParseIP\<close> of the Go library is the parameter
  \<open>ParseIP\<close>, true where the address parses.
\<close>

definition podInfo_step ::
  "(string \<Rightarrow> bool) \<Rightarrow> World \<times> (string \<rightharpoonup> nat \<times> nat) \<Rightarrow> MetricValues
     \<Rightarrow> panic + World \<times> (string \<rightharpoonup> nat \<times> nat)" where
  "podInfo_step ParseIP st m =
     (let w = (fst st)\<lparr>w_KubeStateMetricsInstalled := True\<rparr>;
          pods = snd st;
          ls = mv_Labels m;
          pod = label ls ''pod'';
          ownerName = label ls ''created_by_name'';
          ownerKind = label ls ''created_by_kind'';
          nodeName = label ls ''node'';
          uid = label ls ''uid'';
          node = GetNode w nodeName
      in case podAppId ls of
           None \<Rightarrow> Inr (w, pods)
         | Some appId \<Rightarrow>
            (let (a, w1) = GetOrCreateApplication w appId;
                 (i, app) = GetOrCreateInstance (w_Applications w1 ! a) pod node;
                 w2 = w1\<lparr>w_Applications := (w_Applications w1)[a := app]\<rparr>;
                 podIp = label ls ''pod_ip'';
                 hostIp = label ls ''host_ip'';
                 listens =
                   (if podIp \<noteq> [] \<and> podIp \<noteq> hostIp \<and> ParseIP podIp
                    then (case Last (mv_Values m) of
                            Inl e \<Rightarrow> Inl e
                          | Inr v \<Rightarrow> Inr (update_instance w2 a i (\<lambda>inst.
                              inst\<lparr>inst_TcpListens :=
                                AList.update \<lparr>l_IP = podIp, l_Port = ''0'', l_Proxied = False\<rparr>
                                  (feq v (Fin 1)) (inst_TcpListens inst)\<rparr>)))
                    else Inr w2)
             in case listens of
                  Inl e \<Rightarrow> Inl e
                | Inr w3 \<Rightarrow>
                    Inr (update_instance w3 a i (\<lambda>inst.
                           inst\<lparr>inst_Pod := Some \<lparr>pod_ReplicaSet =
                                   (if ownerKind = ApplicationKindReplicaSet then ownerName else []),
                                 pod_LifeSpan = None\<rparr>\<rparr>),
                         pods(uid \<mapsto> (a, i)))))"

fun podInfo_loop ::
  "(string \<Rightarrow> bool) \<Rightarrow> World \<times> (string \<rightharpoonup> nat \<times> nat) \<Rightarrow> MetricValues list
     \<Rightarrow> panic + World \<times> (string \<rightharpoonup> nat \<times> nat)" where
  "podInfo_loop ParseIP st [] = Inr st"
| "podInfo_loop ParseIP st (m # metrics) = (case podInfo_step ParseIP st m of
      Inl e \<Rightarrow> Inl e
    | Inr st' \<Rightarrow> podInfo_loop ParseIP st' metrics)"

definition podInfo ::
  "(string \<Rightarrow> bool) \<Rightarrow> World \<Rightarrow> MetricValues list \<Rightarrow> panic + World \<times> (string \<rightharpoonup> nat \<times> nat)" where
  "podInfo ParseIP w metrics = podInfo_loop ParseIP (w, Map.empty) metrics"

section \<open>Deployment detection\<close>

text \<open>
  Modelled from the spec: \<open>timeseries.Aggregate\<close> with \<open>NewAggregate\<close>, \<open>Add\<close> and
  \<open>Get\<close> (its file is not among the source files read). By the spec it is "an
  accumulator across an unbounded number of same-shaped series" that "folds incoming
  series into a running series lazily materialized on read": it keeps the combinator and
  the series added so far; \<open>Get\<close> gives nil when no series was added, and otherwise a
  series on the window of the first one that holds, at each point, the fold of the
  combinator over the values of the added series at that point, started from the missing
  value.
\<close>

record Aggregate =
  agg_f :: F
  agg_input :: "TimeSeries list"

definition NewAggregate :: "F \<Rightarrow> Aggregate" where
  "NewAggregate f = \<lparr>agg_f = f, agg_input = []\<rparr>"

definition Add_agg :: "Aggregate \<Rightarrow> TimeSeries option \<Rightarrow> Aggregate" where
  "Add_agg a ts = (case ts of
      None \<Rightarrow> a
    | Some s \<Rightarrow> a\<lparr>agg_input := agg_input a @ [s]\<rparr>)"

fun combine :: "F \<Rightarrow> float32 list \<Rightarrow> Iterator \<Rightarrow> float32 list" where
  "combine f (a # d) ((t, v) # it) = f t a v # combine f d it"
| "combine f d [] = d"
| "combine f [] it = []"

definition Get_agg :: "Aggregate \<Rightarrow> TimeSeries option" where
  "Get_agg a = (case agg_input a of
      [] \<Rightarrow> None
    | s # rest \<Rightarrow> NewWithData (ts_from s) (ts_step s)
        (foldl (\<lambda>d x. combine (agg_f a) d (Iter (Some x)))
           (replicate (length (ts_data s)) NaN) (agg_input a)))"

text \<open>
  Modelled from the spec: \<open>utils.StringSet\<close> with \<open>NewStringSet\<close>, \<open>Add\<close>, \<open>Items\<close>
  and \<open>Len\<close> (its file is not among the source files read). The spec speaks of "the
  set of container images seen": a list without repetitions, whose items are given in
  ascending order.
\<close>

type_synonym StringSet = "string list"

definition NewStringSet :: StringSet where
  "NewStringSet = []"

definition Add_set :: "StringSet \<Rightarrow> string \<Rightarrow> StringSet" where
  "Add_set ss s = (if s \<in> set ss then ss else ss @ [s])"

definition Items :: "StringSet \<Rightarrow> string list" where
  "Items ss = sort ss"


text \<open>
  The first loop of \<open>calcDeployments\<close>: per replica set, the aggregate of the life spans
  of its instances and the set of the images of their containers.
\<close>

fun group_instances ::
  "Instance list \<Rightarrow> (string \<times> Aggregate) list \<Rightarrow> (string \<times> StringSet) list
     \<Rightarrow> (string \<times> Aggregate) list \<times> (string \<times> StringSet) list" where
  "group_instances [] lifeSpans images = (lifeSpans, images)"
| "group_instances (instance # rest) lifeSpans images =
     (case inst_Pod instance of
        None \<Rightarrow> group_instances rest lifeSpans images
      | Some pod \<Rightarrow>
          if pod_ReplicaSet pod = [] then group_instances rest lifeSpans images
          else
            let rs = pod_ReplicaSet pod;
                ts = (case map_of lifeSpans rs of
                        None \<Rightarrow> NewAggregate NanSum
                      | Some a \<Rightarrow> a);
                lifeSpans1 = AList.update rs (Add_agg ts (pod_LifeSpan pod)) lifeSpans;
                imgs = (case map_of images rs of
                          None \<Rightarrow> NewStringSet
                        | Some s \<Rightarrow> s);
                images1 = AList.update rs
                            (foldl Add_set imgs (map (\<lambda>(n, c). c_Image c) (inst_Containers instance)))
                            images
            in group_instances rest lifeSpans1 images1)"

record rss =
  rss_time :: Time
  rss_names :: "string list"

text \<open>
  One round of the inner loop \<open>for name, iter := range iters\<close>: every iterator makes a
  step, and the names with a positive value are collected, until an iterator is
  exhausted (\<open>None\<close>: \<open>done\<close> is set). \<open>t\<close> is the time of the iterator stepped last.
\<close>

fun iters_round ::
  "(string \<times> Iterator) list \<Rightarrow> Time \<Rightarrow> string list
     \<Rightarrow> ((string \<times> Iterator) list \<times> Time \<times> string list) option" where
  "iters_round [] t names = Some ([], t, names)"
| "iters_round ((name, []) # iters) t names = None"
| "iters_round ((name, (t', v) # iter) # iters) t names =
     (case iters_round iters t' (if fgt v (Fin 0) then names @ [name] else names) of
        None \<Rightarrow> None
      | Some (iters', t'', names') \<Rightarrow> Some ((name, iter) # iters', t'', names'))"

lemma iters_round_shorter:
  "iters_round iters t names = Some (iters', t', names') \<Longrightarrow>
   length iters' = length iters
   \<and> sum_list (map (\<lambda>p. length (snd p)) iters') + length iters
       = sum_list (map (\<lambda>p. length (snd p)) iters)"
proof (induction iters t names arbitrary: iters' t' names' rule: iters_round.induct)
  case (1 t names)
  then show ?case by simp
next
  case (2 name iters t names)
  then show ?case by simp
next
  case (3 name u v iter iters t names)
  from "3.prems" obtain r where
    r: "iters_round iters u (if fgt v (Fin 0) then names @ [name] else names) = Some (r, t', names')"
    and i: "iters' = (name, iter) # r"
    by (auto split: option.splits)
  from "3.IH" [OF r] i show ?case by simp
qed

text \<open>
  The loop that gathers \<open>rssOverTime\<close>. It is entered with at least one iterator: with
  none the loop of the code would not end, and \<open>calcDeployments\<close> returns before it
  when \<open>lifeSpans\<close> is empty.
\<close>

function rss_loop :: "(string \<times> Iterator) list \<Rightarrow> rss list \<Rightarrow> rss list" where
  "rss_loop (it # iters) rssOverTime =
     (case iters_round (it # iters) 0 [] of
        None \<Rightarrow> rssOverTime
      | Some (iters', t, names) \<Rightarrow>
          if names = [] then rss_loop iters' rssOverTime
          else rss_loop iters' (rssOverTime @ [\<lparr>rss_time = t, rss_names = sort names\<rparr>]))"
| "rss_loop [] rssOverTime = undefined"
  by pat_completeness auto
termination
  by (relation "measure (\<lambda>(iters, r). sum_list (map (\<lambda>p. length (snd p)) iters))")
     (auto dest!: iters_round_shorter)

text \<open>
  The state of the walk over \<open>rssOverTime\<close>: the deployments found so far, the pointer
  \<open>deployment\<close> to the one in progress (a position in the list, or nil), and \<open>prev\<close>.
\<close>

record walk_state =
  ws_deployments :: "ApplicationDeployment list"
  ws_deployment :: "nat option"
  ws_prev :: string

definition new_deployment :: "ApplicationId \<Rightarrow> string \<Rightarrow> Time \<Rightarrow> ApplicationDeployment" where
  "new_deployment appId name startedAt =
     \<lparr>d_ApplicationId = appId, d_Name = name, d_StartedAt = startedAt, d_FinishedAt = 0,
      d_Details = None, d_MetricsSnapshot = None, d_Notifications = None\<rparr>"

text \<open>\<open>deployment.FinishedAt = t\<close> through the pointer.\<close>

definition set_FinishedAt :: "ApplicationDeployment list \<Rightarrow> nat \<Rightarrow> Time \<Rightarrow> ApplicationDeployment list" where
  "set_FinishedAt ds i t = ds[i := (ds ! i)\<lparr>d_FinishedAt := t\<rparr>]"

text \<open>The first name of the step that differs from \<open>prev\<close>, or the empty string.\<close>

fun some_new_name :: "string list \<Rightarrow> string \<Rightarrow> string" where
  "some_new_name [] prev = []"
| "some_new_name (n # names) prev = (if n \<noteq> prev then n else some_new_name names prev)"

text \<open>The body of the loop over \<open>rssOverTime\<close>: the \<open>switch\<close> on the number of names.\<close>

definition walk_step :: "ApplicationId \<Rightarrow> walk_state \<Rightarrow> rss \<Rightarrow> walk_state" where
  "walk_step appId st r =
     (case rss_names r of
        [] \<Rightarrow> st
      | [cur] \<Rightarrow>
          if ws_prev st = [] then st\<lparr>ws_prev := cur\<rparr>
          else
            let st1 = (case ws_deployment st of
                         None \<Rightarrow> st
                       | Some i \<Rightarrow>
                           st\<lparr>ws_deployments :=
                                (if cur = d_Name (ws_deployments st ! i)
                                 then set_FinishedAt (ws_deployments st) i (rss_time r)
                                 else ws_deployments st),
                              ws_deployment := None\<rparr>)
            in if ws_prev st1 = cur then st1
               else
                 let st2 = (case ws_deployment st1 of
                              None \<Rightarrow>
                                st1\<lparr>ws_deployments := ws_deployments st1
                                       @ [new_deployment appId cur (rss_time r)],
                                    ws_deployment := Some (length (ws_deployments st1))\<rparr>
                            | Some i \<Rightarrow> st1)
                 in st2\<lparr>ws_deployments :=
                          set_FinishedAt (ws_deployments st2) (the (ws_deployment st2)) (rss_time r),
                        ws_deployment := None,
                        ws_prev := cur\<rparr>
      | _ \<Rightarrow>
          if ws_prev st = [] then st
          else (case ws_deployment st of
                  Some i \<Rightarrow> st
                | None \<Rightarrow>
                    let name = some_new_name (rss_names r) (ws_prev st)
                    in st\<lparr>ws_deployments := ws_deployments st
                             @ [new_deployment appId name (rss_time r)],
                          ws_deployment := Some (length (ws_deployments st)),
                          ws_prev := name\<rparr>))"

definition walk :: "ApplicationId \<Rightarrow> rss list \<Rightarrow> walk_state" where
  "walk appId rssOverTime =
     foldl (walk_step appId)
       \<lparr>ws_deployments = [], ws_deployment = None, ws_prev = []\<rparr> rssOverTime"

text \<open>The last loop: the images of the replica set of each deployment.\<close>

definition with_details :: "(string \<times> StringSet) list \<Rightarrow> ApplicationDeployment \<Rightarrow> ApplicationDeployment" where
  "with_details images d = (case map_of images (d_Name d) of
      None \<Rightarrow> d
    | Some ss \<Rightarrow> d\<lparr>d_Details := Some (Items ss)\<rparr>)"

text \<open>
  The sequence of \<open>rssOverTime\<close> that \<open>calcDeployments\<close> walks over, for an application
  that passes its two guards.
\<close>

definition calc_rssOverTime :: "(string \<times> Aggregate) list \<Rightarrow> rss list" where
  "calc_rssOverTime lifeSpans =
     rss_loop (map (\<lambda>(name, agg). (name, Iter (Get_agg agg))) lifeSpans) []"

definition calcDeployments :: "Application \<Rightarrow> ApplicationDeployment list" where
  "calcDeployments app =
     (if aid_Kind (app_Id app) \<noteq> ApplicationKindDeployment \<or> app_Instances app = [] then []
      else
        let (lifeSpans, images) = group_instances (app_Instances app) [] []
        in if lifeSpans = [] then []
           else map (with_details images)
                  (ws_deployments (walk (app_Id app) (calc_rssOverTime lifeSpans))))"

text \<open>
  The value of \<open>prev\<close> when the walk of \<open>calcDeployments\<close> ends, for an application
  that reaches the walk.
\<close>

definition calcDeployments_prev :: "Application \<Rightarrow> string" where
  "calcDeployments_prev app =
     ws_prev (walk (app_Id app)
       (calc_rssOverTime (fst (group_instances (app_Instances app) [] []))))"

text \<open>
  An application with one instance in each of the replica sets \<open>rs-a\<close> and \<open>rs-b\<close>,
  whose life spans are the given values on a common window; the instances have no
  containers.
\<close>

definition replica_set_instance :: "string \<Rightarrow> string \<Rightarrow> TimeSeries option \<Rightarrow> Instance" where
  "replica_set_instance name rs lifeSpan =
     \<lparr>inst_Name = name, inst_Node = None,
      inst_Pod = Some \<lparr>pod_ReplicaSet = rs, pod_LifeSpan = lifeSpan\<rparr>,
      inst_Containers = [], inst_TcpListens = []\<rparr>"

definition two_replica_sets ::
  "string \<Rightarrow> string \<Rightarrow> Time \<Rightarrow> Duration \<Rightarrow> float32 list \<Rightarrow> float32 list \<Rightarrow> Application" where
  "two_replica_sets ns name from step a b =
     \<lparr>app_Id = NewApplicationId ns ApplicationKindDeployment name, app_Category = [],
      app_Instances = [replica_set_instance ''pod-a'' ''rs-a'' (NewWithData from step a),
                       replica_set_instance ''pod-b'' ''rs-b'' (NewWithData from step b)],
      app_Deployments = []\<rparr>"

section \<open>The deployment watcher\<close>

text \<open>
  Modelled from the spec: the duration constants of the \<open>timeseries\<close> package (the
  file declaring them is not among the source files read). Times and durations count
  seconds; the spec's freshness window of a notification is 24 hours.
\<close>

definition Second :: Duration where
  "Second = 1"

definition Hour :: Duration where
  "Hour = 3600 * Second"

definition Day :: Duration where
  "Day = 24 * Hour"






text \<open>
  \<open>getCacheClient\<close>: \<open>GetTo\<close> is the answer of the cache, \<open>None\<close> for an error; a zero
  time is the empty cache.
\<close>

definition getCacheClient :: "Time option \<Rightarrow> Time option" where
  "getCacheClient GetTo = (case GetTo of
      None \<Rightarrow> None
    | Some cacheTo \<Rightarrow> if cacheTo = 0 then None else Some cacheTo)"


subsection \<open>Metrics snapshots\<close>

text \<open>
  The body of the loop \<open>for i, d := range app.Deployments\<close> of
  \<open>snapshotDeploymentMetrics\<close>, on the deployments of the application. The second
  component is not a variable of the code: it records, in order, the position and the
  window of every deployment for which \<open>calcMetricsSnapshot\<close> is called.
  \<open>calcMetricsSnapshot\<close> sums floating-point series of the loaded world; it is the
  parameter \<open>calc\<close>, and the two constants of the snapshot window, declared outside the
  source files read, are the parameters \<open>shift\<close> and \<open>window\<close>. The outcome of saving the
  snapshot is only logged by the code and changes nothing here.
\<close>

definition snapshot_step ::
  "(Time \<Rightarrow> Time \<Rightarrow> Duration \<Rightarrow> World option)
     \<Rightarrow> (Application \<Rightarrow> Time \<Rightarrow> Time \<Rightarrow> Duration \<Rightarrow> MetricsSnapshot)
     \<Rightarrow> Duration \<Rightarrow> Duration \<Rightarrow> Duration \<Rightarrow> Time
     \<Rightarrow> ApplicationDeployment list \<times> (nat \<times> Time \<times> Time) list \<Rightarrow> nat
     \<Rightarrow> ApplicationDeployment list \<times> (nat \<times> Time \<times> Time) list" where
  "snapshot_step LoadWorld calc shift window step cacheTo st i =
     (let deployments = fst st; computed = snd st; d = deployments ! i
      in if d_MetricsSnapshot d \<noteq> None \<or> d_FinishedAt d = 0 then st
         else
           let from = Truncate (d_FinishedAt d + shift) step;
               to = Truncate (from + window) step;
               nextOrNow = (if int i < int (length deployments) - 1
                            then d_StartedAt (deployments ! (i + 1)) else cacheTo)
           in if to > nextOrNow then st
              else (case LoadWorld from to step of
                      None \<Rightarrow> st
                    | Some world \<Rightarrow>
                        (case GetApplication world (d_ApplicationId d) of
                           None \<Rightarrow> st
                         | Some a \<Rightarrow>
                             (deployments[i := d\<lparr>d_MetricsSnapshot :=
                                 Some (calc (w_Applications world ! a) from to step)\<rparr>],
                              computed @ [(i, from, to)]))))"

definition snapshot_deployments ::
  "(Time \<Rightarrow> Time \<Rightarrow> Duration \<Rightarrow> World option)
     \<Rightarrow> (Application \<Rightarrow> Time \<Rightarrow> Time \<Rightarrow> Duration \<Rightarrow> MetricsSnapshot)
     \<Rightarrow> Duration \<Rightarrow> Duration \<Rightarrow> Duration \<Rightarrow> Time
     \<Rightarrow> ApplicationDeployment list
     \<Rightarrow> ApplicationDeployment list \<times> (nat \<times> Time \<times> Time) list" where
  "snapshot_deployments LoadWorld calc shift window step cacheTo deployments =
     foldl (snapshot_step LoadWorld calc shift window step cacheTo) (deployments, [])
       [0..<length deployments]"

text \<open>
  \<open>snapshotDeploymentMetrics\<close>: the applications after the pass, and for each of them
  the record of the snapshots computed.
\<close>

definition snapshotDeploymentMetrics ::
  "(Time \<Rightarrow> Time \<Rightarrow> Duration \<Rightarrow> World option)
     \<Rightarrow> (Application \<Rightarrow> Time \<Rightarrow> Time \<Rightarrow> Duration \<Rightarrow> MetricsSnapshot)
     \<Rightarrow> Duration \<Rightarrow> Duration \<Rightarrow> Duration \<Rightarrow> Time option
     \<Rightarrow> Application list \<Rightarrow> (Application \<times> (nat \<times> Time \<times> Time) list) list" where
  "snapshotDeploymentMetrics LoadWorld calc shift window step GetTo applications =
     (if applications = [] then []
      else case getCacheClient GetTo of
             None \<Rightarrow> map (\<lambda>app. (app, [])) applications
           | Some cacheTo \<Rightarrow>
               map (\<lambda>app.
                     let r = snapshot_deployments LoadWorld calc shift window step cacheTo
                               (app_Deployments app)
                     in (app\<lparr>app_Deployments := fst r\<rparr>, snd r))
                   applications)"

subsection \<open>Notifications\<close>

record IntegrationSlack =
  slack_Token :: string
  slack_DefaultChannel :: string
  slack_Deployments :: bool

record IntegrationTeams =
  teams_WebhookUrl :: string
  teams_Deployments :: bool

record Integrations =
  int_Slack :: "IntegrationSlack option"
  int_Teams :: "IntegrationTeams option"

datatype channel = Slack | Teams

text \<open>
  An element of the result of \<open>model.CalcApplicationDeploymentStatuses\<close>: the pointer
  to a deployment of the application, as its position in \<open>app.Deployments\<close>, and the
  state computed for it.
\<close>

record DeploymentStatus =
  ds_Deployment :: nat
  ds_State :: int

text \<open>
  The state of the loop over the statuses of one application: its deployments, the
  record of every call of \<open>SendDeployment\<close> (the channel, the deployment as it is at
  the call, and the state sent), and the deployments handed to
  \<open>SaveApplicationDeploymentNotifications\<close>. The two records are not variables of the
  code.
\<close>

record notify_state =
  ns_deployments :: "ApplicationDeployment list"
  ns_sent :: "(channel \<times> ApplicationDeployment \<times> int) list"
  ns_saved :: "ApplicationDeployment list"

text \<open>
  The body of the loop over the statuses. Whether a call of \<open>SendDeployment\<close> returns
  without an error is given by the parameter \<open>send_ok\<close>.
\<close>

definition notify_step ::
  "Integrations \<Rightarrow> (channel \<Rightarrow> ApplicationDeployment \<Rightarrow> int \<Rightarrow> bool) \<Rightarrow> Time
     \<Rightarrow> notify_state \<Rightarrow> DeploymentStatus \<Rightarrow> notify_state" where
  "notify_step integrations send_ok now st ds =
     (let i = ds_Deployment ds; d = ns_deployments st ! i
      in if now - d_StartedAt d > Day then st
         else
           let n0 = (case d_Notifications d of
                       None \<Rightarrow> \<lparr>n_State = 0, n_Slack_State = 0, n_Teams_State = 0\<rparr>
                     | Some n \<Rightarrow> n);
               d0 = d\<lparr>d_Notifications := Some n0\<rparr>
           in if n_State n0 \<ge> ds_State ds
              then st\<lparr>ns_deployments := (ns_deployments st)[i := d0]\<rparr>
              else
                let slack = (case int_Slack integrations of
                               None \<Rightarrow> False
                             | Some cfg \<Rightarrow> slack_Deployments cfg \<and> n_Slack_State n0 < ds_State ds);
                    slack_sent = (slack \<and> send_ok Slack d0 (ds_State ds));
                    n1 = (if slack_sent then n0\<lparr>n_Slack_State := ds_State ds\<rparr> else n0);
                    d1 = d\<lparr>d_Notifications := Some n1\<rparr>;
                    teams = (case int_Teams integrations of
                               None \<Rightarrow> False
                             | Some cfg \<Rightarrow> teams_Deployments cfg \<and> n_Teams_State n1 < ds_State ds);
                    teams_sent = (teams \<and> send_ok Teams d1 (ds_State ds));
                    n2 = (if teams_sent then n1\<lparr>n_Teams_State := ds_State ds\<rparr> else n1);
                    d2 = d\<lparr>d_Notifications := Some n2\<rparr>;
                    needSave = (slack_sent \<or> teams_sent)
                in \<lparr>ns_deployments = (ns_deployments st)[i := d2],
                    ns_sent = ns_sent st
                              @ (if slack then [(Slack, d0, ds_State ds)] else [])
                              @ (if teams then [(Teams, d1, ds_State ds)] else []),
                    ns_saved = (if needSave then ns_saved st @ [d2] else ns_saved st)\<rparr>)"

text \<open>
  \<open>sendNotifications\<close> for one application and for the world.
  \<open>NotifyOfDeployments\<close> stands for the lookup
  \<open>categorySettings[app.Category].NotifyOfDeployments\<close> in the project settings and
  \<open>statuses\<close> for \<open>model.CalcApplicationDeploymentStatuses\<close>; both are declared outside
  the source files read.
\<close>

definition notify_app ::
  "Integrations \<Rightarrow> (string \<Rightarrow> bool) \<Rightarrow> (Application \<Rightarrow> Time \<Rightarrow> DeploymentStatus list)
     \<Rightarrow> (channel \<Rightarrow> ApplicationDeployment \<Rightarrow> int \<Rightarrow> bool) \<Rightarrow> Time \<Rightarrow> Application
     \<Rightarrow> notify_state" where
  "notify_app integrations NotifyOfDeployments statuses send_ok now app =
     (if \<not> NotifyOfDeployments (app_Category app)
      then \<lparr>ns_deployments = app_Deployments app, ns_sent = [], ns_saved = []\<rparr>
      else foldl (notify_step integrations send_ok now)
             \<lparr>ns_deployments = app_Deployments app, ns_sent = [], ns_saved = []\<rparr>
             (statuses app now))"

definition sendNotifications ::
  "Integrations \<Rightarrow> (string \<Rightarrow> bool) \<Rightarrow> (Application \<Rightarrow> Time \<Rightarrow> DeploymentStatus list)
     \<Rightarrow> (channel \<Rightarrow> ApplicationDeployment \<Rightarrow> int \<Rightarrow> bool) \<Rightarrow> World \<Rightarrow> Time
     \<Rightarrow> notify_state list" where
  "sendNotifications integrations NotifyOfDeployments statuses send_ok world now =
     map (notify_app integrations NotifyOfDeployments statuses send_ok now)
       (w_Applications world)"


text \<open>Every recorded call of \<open>SendDeployment\<close> is for a deployment started within a day.\<close>

definition fresh_sent :: "Time \<Rightarrow> (channel \<times> ApplicationDeployment \<times> int) list \<Rightarrow> bool" where
  "fresh_sent now sent = list_all (\<lambda>(ch, d, s). now - d_StartedAt d \<le> Day) sent"

text \<open>
  An entry \<open>(i, from, to)\<close> of the record of computed snapshots is in order for the
  deployments as they were before the pass: the deployment at \<open>i\<close> had no snapshot and
  a finish time, the window is the one the code computes, and its end is not after the
  start of the next deployment, or after the latest time of the cache for the last one.
\<close>

definition snapshot_window_ok ::
  "Duration \<Rightarrow> Duration \<Rightarrow> Duration \<Rightarrow> Time \<Rightarrow> ApplicationDeployment list \<Rightarrow> nat \<times> Time \<times> Time \<Rightarrow> bool" where
  "snapshot_window_ok shift window step cacheTo deployments e =
     (case e of (i, from, to) \<Rightarrow>
        i < length deployments
        \<and> d_MetricsSnapshot (deployments ! i) = None
        \<and> d_FinishedAt (deployments ! i) \<noteq> 0
        \<and> from = Truncate (d_FinishedAt (deployments ! i) + shift) step
        \<and> to = Truncate (from + window) step
        \<and> to \<le> (if i + 1 < length deployments then d_StartedAt (deployments ! (i + 1))
                   else cacheTo))"

text \<open>
  What holds of the loop of \<open>snapshotDeploymentMetrics\<close> over the deployments \<open>orig\<close>
  of an application when the positions below \<open>k\<close> have been visited.
\<close>

definition snapshot_inv ::
  "Duration \<Rightarrow> Duration \<Rightarrow> Duration \<Rightarrow> Time \<Rightarrow> ApplicationDeployment list \<Rightarrow> nat
     \<Rightarrow> ApplicationDeployment list \<times> (nat \<times> Time \<times> Time) list \<Rightarrow> bool" where
  "snapshot_inv shift window step cacheTo orig k st =
     (length (fst st) = length orig
      \<and> (\<forall>j < length orig. \<exists>ms. fst st ! j = (orig ! j)\<lparr>d_MetricsSnapshot := ms\<rparr>)
      \<and> (\<forall>j < length orig. k \<le> j \<longrightarrow> fst st ! j = orig ! j)
      \<and> (\<forall>j < length orig. d_MetricsSnapshot (orig ! j) \<noteq> None \<longrightarrow> fst st ! j = orig ! j)
      \<and> (\<forall>e \<in> set (snd st). snapshot_window_ok shift window step cacheTo orig e
            \<and> fst e < k \<and> d_MetricsSnapshot (fst st ! fst e) \<noteq> None)
      \<and> distinct (map fst (snd st)))"

text \<open>
  The outcome of a pass over the deployments of an application: the deployments keep
  their number and all their fields but the snapshot; a deployment that had a snapshot
  is as it was; no position is computed twice; and every computed entry is in order and
  has its snapshot attached.
\<close>

definition snapshots_deferred ::
  "Duration \<Rightarrow> Duration \<Rightarrow> Duration \<Rightarrow> Time \<Rightarrow> ApplicationDeployment list
     \<Rightarrow> ApplicationDeployment list \<Rightarrow> (nat \<times> Time \<times> Time) list \<Rightarrow> bool" where
  "snapshots_deferred shift window step cacheTo deployments deployments' computed =
     (length deployments' = length deployments
      \<and> (\<forall>i < length deployments. \<exists>ms. deployments' ! i = (deployments ! i)\<lparr>d_MetricsSnapshot := ms\<rparr>)
      \<and> (\<forall>i < length deployments.
            d_MetricsSnapshot (deployments ! i) \<noteq> None \<longrightarrow> deployments' ! i = deployments ! i)
      \<and> distinct (map fst computed)
      \<and> (\<forall>e \<in> set computed. snapshot_window_ok shift window step cacheTo deployments e
            \<and> d_MetricsSnapshot (deployments' ! fst e) \<noteq> None))"

text \<open>
  An example for the snapshot pass: a world that holds the application \<open>web\<close>, a
  snapshot that keeps the window only, and two deployments, finished at 1000 and 5000.
\<close>

definition example_LoadWorld :: "Time \<Rightarrow> Time \<Rightarrow> Duration \<Rightarrow> World option" where
  "example_LoadWorld from to step =
     Some \<lparr>w_Nodes = [],
           w_Applications = [NewApplication (NewApplicationId ''default'' ApplicationKindDeployment ''web'')],
           w_KubeStateMetricsInstalled = True\<rparr>"

definition example_calc :: "Application \<Rightarrow> Time \<Rightarrow> Time \<Rightarrow> Duration \<Rightarrow> MetricsSnapshot" where
  "example_calc a from to step = \<lparr>ms_Timestamp = to, ms_Duration = to - from\<rparr>"

definition example_deployments :: "ApplicationDeployment list" where
  "example_deployments =
     [(new_deployment (NewApplicationId ''default'' ApplicationKindDeployment ''web'') ''rs-a'' 1000)
        \<lparr>d_FinishedAt := 1000\<rparr>,
      (new_deployment (NewApplicationId ''default'' ApplicationKindDeployment ''web'') ''rs-b'' 5000)
        \<lparr>d_FinishedAt := 5000\<rparr>]"

text \<open>
  The pointer pair \<open>(a, i)\<close> refers, in the world \<open>w\<close>, to an instance named \<open>pod\<close> of
  the application with the id \<open>id'\<close>.
\<close>

definition pod_registered :: "World \<Rightarrow> nat \<Rightarrow> nat \<Rightarrow> ApplicationId \<Rightarrow> string \<Rightarrow> bool" where
  "pod_registered w a i id' pod =
     (a < length (w_Applications w) \<and> app_Id (w_Applications w ! a) = id'
      \<and> i < length (app_Instances (w_Applications w ! a))
      \<and> inst_Name (app_Instances (w_Applications w ! a) ! i) = pod)"

section \<open>Properties of the time series\<close>














text \<open>
  C9. The read operations are total on the nil series, which behaves as the empty
  series: \<open>IsEmpty\<close> holds exactly for nil; \<open>len\<close> is 0; \<open>Last\<close>, \<open>Reduce\<close> and
  \<open>LastNotNull\<close> return the missing value without a panic; \<open>LastN\<close> returns as many
  missing values as asked for; \<open>Iter\<close> yields nothing; \<open>Get\<close>, \<open>Map\<close> and
  \<open>WithNewValue\<close> return nil; \<open>Increase\<close> and \<open>Aggregate2\<close> return nil when either
  operand is nil.
\<close>

theorem nil_series_total:
  "IsEmpty ts = (ts = None)
   \<and> len None = 0
   \<and> Last None = Inr NaN
   \<and> Reduce f None = NaN
   \<and> Iter None = []
   \<and> LastNotNull None = (0, NaN)
   \<and> LastN None (int k) = Inr (replicate k NaN)
   \<and> Get None = None
   \<and> Map_ts g None = None
   \<and> WithNewValue v None = None
   \<and> Increase None y = None \<and> Increase x None = None
   \<and> Aggregate2 None y h = None \<and> Aggregate2 x None h = None"
  by (simp add: IsEmpty_def len_def Last_def Reduce_def Iter_def LastNotNull_def LastN_def
      Get_def Map_ts_def WithNewValue_def Increase_def Aggregate2_def split: option.split)

section \<open>Properties of Fill\<close>











lemmas Fill_eval =
  Fill_def Fill_step_def New_def NewWithData_def len_def Let_def go_div_def go_mod_def
  Truncate_def wrap64_def numeral_2_eq_2 numeral_3_eq_3

text \<open>
  Where the 64-bit arithmetic wraps around, the model follows the code. With a step of
  \<open>2 ^ 62\<close> the end of a window of three points wraps below its start, so that the
  loop breaks at once and nothing is written. With the start \<open>- 2 ^ 62\<close> the difference
  to an input time \<open>2 ^ 62\<close> wraps to a negative number: the index is \<open>-2\<close> and the
  assignment panics, though the step is positive.
\<close>

lemma Fill_wraps_around:
  "Fill (Some \<lparr>ts_from = 0, ts_step = 2 ^ 62, ts_data = [NaN, NaN, NaN]\<rparr>) 0 (2 ^ 62)
        [Fin 1, Fin 2, Fin 3]
     = Inr (False, \<lparr>ts_from = 0, ts_step = 2 ^ 62, ts_data = [NaN, NaN, NaN]\<rparr>, [])
   \<and> Fill (Some \<lparr>ts_from = - (2 ^ 62), ts_step = 2 ^ 62, ts_data = [NaN, NaN, NaN]\<rparr>)
        (2 ^ 62) (2 ^ 62) [Fin 1]
     = Inl IndexOutOfRange"
  by (simp add: Fill_eval)




section \<open>Properties of the world\<close>

lemma first_index_Some:
  "first_index P xs i = Some j \<Longrightarrow> i \<le> j \<and> j - i < length xs \<and> P (xs ! (j - i))"
proof (induction xs arbitrary: i)
  case Nil
  then show ?case by simp
next
  case (Cons x xs)
  show ?case
  proof (cases "P x")
    case True
    with Cons.prems show ?thesis by simp
  next
    case False
    with Cons.prems have "first_index P xs (Suc i) = Some j" by simp
    from Cons.IH [OF this] have "Suc i \<le> j" "j - Suc i < length xs" "P (xs ! (j - Suc i))"
      by simp_all
    then show ?thesis by (simp add: Suc_diff_le nth_Cons')
  qed
qed


lemma first_index_append_new:
  "first_index P xs i = None \<Longrightarrow> P x \<Longrightarrow> first_index P (xs @ [x]) i = Some (i + length xs)"
  by (induction xs arbitrary: i) (auto split: if_splits)

lemma first_index_append_old:
  "first_index P xs i = Some j \<Longrightarrow> first_index P (xs @ ys) i = Some j"
  by (induction xs arbitrary: i) (auto split: if_splits)

lemma GetOrCreateApplication_valid:
  assumes "GetOrCreateApplication w id' = (a, w1)"
  shows "a < length (w_Applications w1) \<and> app_Id (w_Applications w1 ! a) = id'
     \<and> GetApplication w1 id' = Some a \<and> w_Nodes w1 = w_Nodes w
     \<and> w_KubeStateMetricsInstalled w1 = w_KubeStateMetricsInstalled w"
proof (cases "GetApplication w id'")
  case None
  then have n: "first_index (\<lambda>a. app_Id a = id') (w_Applications w) 0 = None"
    by (simp add: GetApplication_def)
  have "app_Id (NewApplication id') = id'" by (simp add: NewApplication_def)
  from first_index_append_new [OF n, of "NewApplication id'"] this
  have "first_index (\<lambda>a. app_Id a = id') (w_Applications w @ [NewApplication id']) 0
          = Some (length (w_Applications w))" by simp
  with None assms show ?thesis
    by (auto simp: GetOrCreateApplication_def GetApplication_def NewApplication_def)
next
  case (Some j)
  then have "first_index (\<lambda>a. app_Id a = id') (w_Applications w) 0 = Some j"
    by (simp add: GetApplication_def)
  from first_index_Some [OF this] Some assms show ?thesis
    by (auto simp: GetOrCreateApplication_def)
qed





section \<open>Properties of pod ingestion\<close>

lemma GetOrCreateInstance_valid:
  assumes "GetOrCreateInstance app name node = (i, app')"
  shows "i < length (app_Instances app') \<and> inst_Name (app_Instances app' ! i) = name
     \<and> app_Id app' = app_Id app"
proof (cases "first_index (\<lambda>i. inst_Name i = name) (app_Instances app) 0")
  case None
  with assms show ?thesis
    by (auto simp: GetOrCreateInstance_def NewInstance_def)
next
  case (Some j)
  from first_index_Some [OF this] Some assms show ?thesis
    by (auto simp: GetOrCreateInstance_def)
qed

lemma update_instance_valid:
  assumes "a < length (w_Applications w)" "i < length (app_Instances (w_Applications w ! a))"
    and "inst_Name (f (app_Instances (w_Applications w ! a) ! i))
           = inst_Name (app_Instances (w_Applications w ! a) ! i)"
  shows "length (w_Applications (update_instance w a i f)) = length (w_Applications w)
    \<and> app_Id (w_Applications (update_instance w a i f) ! a) = app_Id (w_Applications w ! a)
    \<and> length (app_Instances (w_Applications (update_instance w a i f) ! a))
         = length (app_Instances (w_Applications w ! a))
    \<and> inst_Name (app_Instances (w_Applications (update_instance w a i f) ! a) ! i)
         = inst_Name (app_Instances (w_Applications w ! a) ! i)"
  using assms by (simp add: update_instance_def)

lemma pod_registered_update:
  "pod_registered w a i id' pod \<Longrightarrow> (\<And>x. inst_Name (f x) = inst_Name x) \<Longrightarrow>
   pod_registered (update_instance w a i f) a i id' pod"
  by (simp add: pod_registered_def update_instance_def)

lemma podInfo_step_registers:
  assumes "podAppId (mv_Labels m) = Some id'"
    and "podInfo_step ParseIP (w, pods) m = Inr (w', pods')"
  shows "\<exists>a i. pods' (label (mv_Labels m) ''uid'') = Some (a, i)
          \<and> pod_registered w' a i id' (label (mv_Labels m) ''pod'')"
proof -
  let ?w = "w\<lparr>w_KubeStateMetricsInstalled := True\<rparr>"
  let ?pod = "label (mv_Labels m) ''pod''"
  obtain a w1 where g: "GetOrCreateApplication ?w id' = (a, w1)"
    by (cases "GetOrCreateApplication ?w id'")
  obtain i app where h: "GetOrCreateInstance (w_Applications w1 ! a) ?pod
      (GetNode ?w (label (mv_Labels m) ''node'')) = (i, app)"
    by (cases "GetOrCreateInstance (w_Applications w1 ! a) ?pod
      (GetNode ?w (label (mv_Labels m) ''node''))")
  let ?w2 = "w1\<lparr>w_Applications := (w_Applications w1)[a := app]\<rparr>"
  from GetOrCreateApplication_valid [OF g] GetOrCreateInstance_valid [OF h]
  have r2: "pod_registered ?w2 a i id' ?pod"
    by (simp add: pod_registered_def)
  show ?thesis
  proof (cases "label (mv_Labels m) ''pod_ip'' \<noteq> []
      \<and> label (mv_Labels m) ''pod_ip'' \<noteq> label (mv_Labels m) ''host_ip''
      \<and> ParseIP (label (mv_Labels m) ''pod_ip'')")
    case False
    then have "podInfo_step ParseIP (w, pods) m = Inr (update_instance ?w2 a i (\<lambda>inst.
                           inst\<lparr>inst_Pod := Some \<lparr>pod_ReplicaSet =
                                   (if label (mv_Labels m) ''created_by_kind'' = ApplicationKindReplicaSet
                                    then label (mv_Labels m) ''created_by_name'' else []),
                                 pod_LifeSpan = None\<rparr>\<rparr>),
                         pods(label (mv_Labels m) ''uid'' \<mapsto> (a, i)))"
      using assms(1) g h unfolding podInfo_step_def Let_def by auto
    with assms(2) pod_registered_update [OF r2] show ?thesis by auto
  next
    case True
    show ?thesis
    proof (cases "Last (mv_Values m)")
      case (Inl e)
      with True assms(1) g h have "podInfo_step ParseIP (w, pods) m = Inl e"
        unfolding podInfo_step_def Let_def by auto
      with assms(2) show ?thesis by simp
    next
      case (Inr v)
      let ?w3 = "update_instance ?w2 a i (\<lambda>inst.
                              inst\<lparr>inst_TcpListens :=
                                AList.update \<lparr>l_IP = label (mv_Labels m) ''pod_ip'', l_Port = ''0'', l_Proxied = False\<rparr>
                                  (feq v (Fin 1)) (inst_TcpListens inst)\<rparr>)"
      have r3: "pod_registered ?w3 a i id' ?pod"
        by (rule pod_registered_update [OF r2]) simp
      have "podInfo_step ParseIP (w, pods) m = Inr (update_instance ?w3 a i (\<lambda>inst.
                           inst\<lparr>inst_Pod := Some \<lparr>pod_ReplicaSet =
                                   (if label (mv_Labels m) ''created_by_kind'' = ApplicationKindReplicaSet
                                    then label (mv_Labels m) ''created_by_name'' else []),
                                 pod_LifeSpan = None\<rparr>\<rparr>),
                         pods(label (mv_Labels m) ''uid'' \<mapsto> (a, i)))"
        using True Inr assms(1) g h unfolding podInfo_step_def Let_def by auto
      with assms(2) pod_registered_update [OF r3] show ?thesis by auto
    qed
  qed
qed


lemma TrimSuffix_append: "TrimSuffix (name @ sfx) sfx = name"
  by (simp add: TrimSuffix_def)

text \<open>
  C4, as the spec states it, fails for a pod with an owner name and no owner kind: the
  first branch of the \<open>switch\<close> tests the kind alone, so the pod is not dropped but
  becomes an instance of a static-pod application.
\<close>

theorem podInfo_static_pod_with_owner_name_counterexample:
  "(case podInfo (\<lambda>ip. True) (NewWorld 0 3600 15)
          [\<lparr>mv_Labels = [''pod'' \<mapsto> ''web-n1'', ''node'' \<mapsto> ''n1'', ''uid'' \<mapsto> ''u1'',
                         ''created_by_name'' \<mapsto> ''rs1''],
            mv_Values = None\<rparr>] of
      Inl e \<Rightarrow> False
    | Inr (w, pods) \<Rightarrow>
        pods ''u1'' = Some (0, 0)
        \<and> map app_Id (w_Applications w) = [NewApplicationId [] ApplicationKindStaticPods ''web'']
        \<and> map inst_Name (app_Instances (w_Applications w ! 0)) = [''web-n1''])"
  by (simp add: podInfo_def podInfo_step_def podAppId_def label_def NewWorld_def
      GetOrCreateApplication_def GetApplication_def GetOrCreateInstance_def GetNode_def
      NewApplication_def NewInstance_def NewApplicationId_def update_instance_def
      TrimSuffix_def ApplicationKindStaticPods_def ApplicationKindReplicaSet_def Let_def)

text \<open>
  C4 (amended). During pod ingestion, for every pod sample: if the owner-kind label is
  empty, \<open><none>\<close> or \<open>Node\<close>, whatever the owner name, the pod belongs to the
  static-pod application named by the pod name without its trailing \<open>-<nodeName>\<close>;
  otherwise, if the owner name is not empty, the owner kind and name define the
  application id; otherwise (an owner kind other than these with no owner name) the pod
  is dropped: the applications, their instances and the map of pods stay as they are.
  Where an application id is chosen and the step does not panic, the pod's uid then
  refers to an instance named as the pod in the application with that id.
\<close>

theorem podInfo_owner_resolution:
  "(label ls ''created_by_kind'' \<in> {[], ''<none>'', ''Node''} \<longrightarrow>
      podAppId ls = Some (NewApplicationId (label ls ''namespace'') ApplicationKindStaticPods
                            (TrimSuffix (label ls ''pod'') (''-'' @ label ls ''node''))))
   \<and> TrimSuffix (name @ ''-'' @ nodeName) (''-'' @ nodeName) = name
   \<and> (label ls ''created_by_kind'' \<notin> {[], ''<none>'', ''Node''}
        \<and> label ls ''created_by_name'' \<noteq> [] \<longrightarrow>
      podAppId ls = Some (NewApplicationId (label ls ''namespace'')
                            (label ls ''created_by_kind'') (label ls ''created_by_name'')))
   \<and> (label ls ''created_by_kind'' \<notin> {[], ''<none>'', ''Node''}
        \<and> label ls ''created_by_name'' = [] \<longrightarrow>
      podAppId ls = None
      \<and> podInfo_step ParseIP (w, pods) \<lparr>mv_Labels = ls, mv_Values = vs\<rparr>
          = Inr (w\<lparr>w_KubeStateMetricsInstalled := True\<rparr>, pods))
   \<and> (\<forall>id' w' pods'.
        podAppId ls = Some id'
        \<and> podInfo_step ParseIP (w, pods) \<lparr>mv_Labels = ls, mv_Values = vs\<rparr> = Inr (w', pods') \<longrightarrow>
        (\<exists>a i. pods' (label ls ''uid'') = Some (a, i)
               \<and> pod_registered w' a i id' (label ls ''pod'')))"
proof -
  have 1: "label ls ''created_by_kind'' \<in> {[], ''<none>'', ''Node''} \<longrightarrow>
      podAppId ls = Some (NewApplicationId (label ls ''namespace'') ApplicationKindStaticPods
                            (TrimSuffix (label ls ''pod'') (''-'' @ label ls ''node'')))"
    by (auto simp: podAppId_def Let_def)
  have 2: "TrimSuffix (name @ ''-'' @ nodeName) (''-'' @ nodeName) = name"
    by (rule TrimSuffix_append)
  have 3: "label ls ''created_by_kind'' \<notin> {[], ''<none>'', ''Node''}
        \<and> label ls ''created_by_name'' \<noteq> [] \<longrightarrow>
      podAppId ls = Some (NewApplicationId (label ls ''namespace'')
                            (label ls ''created_by_kind'') (label ls ''created_by_name''))"
    by (auto simp: podAppId_def Let_def)
  have 4: "label ls ''created_by_kind'' \<notin> {[], ''<none>'', ''Node''}
        \<and> label ls ''created_by_name'' = [] \<longrightarrow>
      podAppId ls = None
      \<and> podInfo_step ParseIP (w, pods) \<lparr>mv_Labels = ls, mv_Values = vs\<rparr>
          = Inr (w\<lparr>w_KubeStateMetricsInstalled := True\<rparr>, pods)"
    by (auto simp: podAppId_def podInfo_step_def Let_def)
  have 5: "\<forall>id' w' pods'.
        podAppId ls = Some id'
        \<and> podInfo_step ParseIP (w, pods) \<lparr>mv_Labels = ls, mv_Values = vs\<rparr> = Inr (w', pods') \<longrightarrow>
        (\<exists>a i. pods' (label ls ''uid'') = Some (a, i)
               \<and> pod_registered w' a i id' (label ls ''pod''))"
    using podInfo_step_registers [of "\<lparr>mv_Labels = ls, mv_Values = vs\<rparr>" _ ParseIP w pods]
    by simp
  from 1 2 3 4 5 show ?thesis by blast
qed

theorem podInfo_owner_resolution_witness:
  "podAppId [''pod'' \<mapsto> ''etcd-n1'', ''node'' \<mapsto> ''n1'', ''uid'' \<mapsto> ''u1'',
             ''created_by_kind'' \<mapsto> ''Node'', ''created_by_name'' \<mapsto> ''n1'']
     = Some (NewApplicationId [] ApplicationKindStaticPods ''etcd'')
   \<and> (\<exists>w' pods' a i.
        podInfo_step (\<lambda>ip. True) (NewWorld 0 3600 15, Map.empty)
          \<lparr>mv_Labels = [''pod'' \<mapsto> ''etcd-n1'', ''node'' \<mapsto> ''n1'', ''uid'' \<mapsto> ''u1'',
                         ''created_by_kind'' \<mapsto> ''Node'', ''created_by_name'' \<mapsto> ''n1''],
            mv_Values = None\<rparr> = Inr (w', pods')
        \<and> pods' ''u1'' = Some (a, i)
        \<and> pod_registered w' a i (NewApplicationId [] ApplicationKindStaticPods ''etcd'')
             ''etcd-n1'')
   \<and> podAppId [''pod'' \<mapsto> ''web-5d8-x'', ''node'' \<mapsto> ''n1'', ''namespace'' \<mapsto> ''prod'',
               ''created_by_kind'' \<mapsto> ''ReplicaSet'', ''created_by_name'' \<mapsto> ''web-5d8'']
     = Some (NewApplicationId ''prod'' ''ReplicaSet'' ''web-5d8'')
   \<and> podAppId [''pod'' \<mapsto> ''web-5d8-x'', ''created_by_kind'' \<mapsto> ''ReplicaSet''] = None
   \<and> podInfo_step (\<lambda>ip. True) (NewWorld 0 3600 15, Map.empty)
        \<lparr>mv_Labels = [''pod'' \<mapsto> ''web-5d8-x'', ''created_by_kind'' \<mapsto> ''ReplicaSet''],
          mv_Values = None\<rparr>
     = Inr ((NewWorld 0 3600 15)\<lparr>w_KubeStateMetricsInstalled := True\<rparr>, Map.empty)"
proof -
  let ?ls1 = "[''pod'' \<mapsto> ''etcd-n1'', ''node'' \<mapsto> ''n1'', ''uid'' \<mapsto> ''u1'',
             ''created_by_kind'' \<mapsto> ''Node'', ''created_by_name'' \<mapsto> ''n1'']"
  let ?ls2 = "[''pod'' \<mapsto> ''web-5d8-x'', ''node'' \<mapsto> ''n1'', ''namespace'' \<mapsto> ''prod'',
               ''created_by_kind'' \<mapsto> ''ReplicaSet'', ''created_by_name'' \<mapsto> ''web-5d8'']"
  let ?ls3 = "[''pod'' \<mapsto> ''web-5d8-x'', ''created_by_kind'' \<mapsto> ''ReplicaSet'']"
  note t1 = podInfo_owner_resolution [where ls = ?ls1 and ParseIP = "\<lambda>ip. True"
       and w = "NewWorld 0 3600 15" and pods = Map.empty and vs = None]
  have k1: "label ?ls1 ''created_by_kind'' \<in> {[], ''<none>'', ''Node''}"
    by (simp add: label_def)
  with t1 have a1: "podAppId ?ls1 = Some (NewApplicationId [] ApplicationKindStaticPods ''etcd'')"
    by (simp add: label_def TrimSuffix_def)
  have "\<exists>w' pods'. podInfo_step (\<lambda>ip. True) (NewWorld 0 3600 15, Map.empty)
          \<lparr>mv_Labels = ?ls1, mv_Values = None\<rparr> = Inr (w', pods')"
    by (simp add: podInfo_step_def a1 Let_def label_def split: prod.split)
  then obtain w' pods' where s1: "podInfo_step (\<lambda>ip. True) (NewWorld 0 3600 15, Map.empty)
          \<lparr>mv_Labels = ?ls1, mv_Values = None\<rparr> = Inr (w', pods')"
    by blast
  from t1 a1 s1 have "\<exists>a i. pods' (label ?ls1 ''uid'') = Some (a, i)
        \<and> pod_registered w' a i (NewApplicationId [] ApplicationKindStaticPods ''etcd'')
             (label ?ls1 ''pod'')"
    by blast
  then have b1: "\<exists>a i. pods' ''u1'' = Some (a, i)
        \<and> pod_registered w' a i (NewApplicationId [] ApplicationKindStaticPods ''etcd'')
             ''etcd-n1''"
    by (simp add: label_def)
  have a2: "podAppId ?ls2 = Some (NewApplicationId ''prod'' ''ReplicaSet'' ''web-5d8'')"
    using podInfo_owner_resolution [where ls = ?ls2] by (simp add: label_def)
  have a3: "podAppId ?ls3 = None
     \<and> podInfo_step (\<lambda>ip. True) (NewWorld 0 3600 15, Map.empty)
        \<lparr>mv_Labels = ?ls3, mv_Values = None\<rparr>
       = Inr ((NewWorld 0 3600 15)\<lparr>w_KubeStateMetricsInstalled := True\<rparr>, Map.empty)"
    using podInfo_owner_resolution [where ls = ?ls3 and ParseIP = "\<lambda>ip. True"
       and w = "NewWorld 0 3600 15" and pods = Map.empty and vs = None]
    by (simp add: label_def)
  from a1 s1 b1 a2 a3 show ?thesis by blast
qed

section \<open>Properties of deployment detection\<close>

lemmas calcDeployments_eval =
  calcDeployments_def calcDeployments_prev_def two_replica_sets_def replica_set_instance_def
  NewApplicationId_def ApplicationKindDeployment_def NewWithData_def NewAggregate_def
  Add_agg_def Get_agg_def NewStringSet_def Add_set_def Items_def calc_rssOverTime_def Iter_def
  NanSum_def walk_def walk_step_def new_deployment_def set_FinishedAt_def with_details_def
  Let_def upt_rec

lemma calcDeployments_two_replica_sets:
  "calcDeployments (two_replica_sets ns name from step
       [Fin 1, Fin 1, Fin 1, Fin 0, Fin 0, Fin 1, Fin 1, Fin 1]
       [Fin 0, Fin 0, Fin 0, Fin 1, Fin 1, Fin 0, Fin 0, Fin 0])
     = [\<lparr>d_ApplicationId = NewApplicationId ns ApplicationKindDeployment name,
         d_Name = ''rs-b'', d_StartedAt = from + 3 * step, d_FinishedAt = from + 3 * step,
         d_Details = Some [], d_MetricsSnapshot = None, d_Notifications = None\<rparr>,
        \<lparr>d_ApplicationId = NewApplicationId ns ApplicationKindDeployment name,
         d_Name = ''rs-a'', d_StartedAt = from + 5 * step, d_FinishedAt = from + 5 * step,
         d_Details = Some [], d_MetricsSnapshot = None, d_Notifications = None\<rparr>]"
  by (simp add: calcDeployments_eval)

text \<open>
  C2, as the spec states it, fails: on the life spans 1,1,1,0,0,1,1,1 of \<open>rs-a\<close> and
  0,0,0,1,1,0,0,0 of \<open>rs-b\<close>, sampled every 15 seconds from time 0, the detector finds
  two deployments, not one, and the deployment named \<open>rs-b\<close> finishes at the step it
  starts at (time 45), not one step later.
\<close>

theorem calcDeployments_rollback_counterexample:
  "length (calcDeployments (two_replica_sets ''default'' ''web'' 0 15
       [Fin 1, Fin 1, Fin 1, Fin 0, Fin 0, Fin 1, Fin 1, Fin 1]
       [Fin 0, Fin 0, Fin 0, Fin 1, Fin 1, Fin 0, Fin 0, Fin 0])) = 2
   \<and> map (\<lambda>d. (d_Name d, d_StartedAt d, d_FinishedAt d))
       (calcDeployments (two_replica_sets ''default'' ''web'' 0 15
         [Fin 1, Fin 1, Fin 1, Fin 0, Fin 0, Fin 1, Fin 1, Fin 1]
         [Fin 0, Fin 0, Fin 0, Fin 1, Fin 1, Fin 0, Fin 0, Fin 0]))
     = [(''rs-b'', 45, 45), (''rs-a'', 75, 75)]"
  by (simp add: calcDeployments_two_replica_sets)

text \<open>
  C2 (amended). For the deployment detector run on the two replica-set life-span series
  \<open>rs-a\<close> = 1,1,1,0,0,1,1,1 and \<open>rs-b\<close> = 0,0,0,1,1,0,0,0 on a window that starts at
  \<open>from\<close> with the step \<open>step\<close>, the result is exactly two deployments, each opened
  and closed at one step: the first named \<open>rs-b\<close>, started and finished at the fourth
  step (the first step where \<open>rs-b\<close> is active), the second named \<open>rs-a\<close>, started and
  finished at the sixth step (the first step where \<open>rs-a\<close> is active again); and the
  rolling previous-active-name state ends at \<open>rs-a\<close>.
\<close>

theorem calcDeployments_rollback:
  "calcDeployments (two_replica_sets ns name from step
       [Fin 1, Fin 1, Fin 1, Fin 0, Fin 0, Fin 1, Fin 1, Fin 1]
       [Fin 0, Fin 0, Fin 0, Fin 1, Fin 1, Fin 0, Fin 0, Fin 0])
     = [\<lparr>d_ApplicationId = NewApplicationId ns ApplicationKindDeployment name,
         d_Name = ''rs-b'', d_StartedAt = from + 3 * step, d_FinishedAt = from + 3 * step,
         d_Details = Some [], d_MetricsSnapshot = None, d_Notifications = None\<rparr>,
        \<lparr>d_ApplicationId = NewApplicationId ns ApplicationKindDeployment name,
         d_Name = ''rs-a'', d_StartedAt = from + 5 * step, d_FinishedAt = from + 5 * step,
         d_Details = Some [], d_MetricsSnapshot = None, d_Notifications = None\<rparr>]
   \<and> calcDeployments_prev (two_replica_sets ns name from step
       [Fin 1, Fin 1, Fin 1, Fin 0, Fin 0, Fin 1, Fin 1, Fin 1]
       [Fin 0, Fin 0, Fin 0, Fin 1, Fin 1, Fin 0, Fin 0, Fin 0]) = ''rs-a''"
proof -
  have "calcDeployments_prev (two_replica_sets ns name from step
       [Fin 1, Fin 1, Fin 1, Fin 0, Fin 0, Fin 1, Fin 1, Fin 1]
       [Fin 0, Fin 0, Fin 0, Fin 1, Fin 1, Fin 0, Fin 0, Fin 0]) = ''rs-a''"
    by (simp add: calcDeployments_eval)
  with calcDeployments_two_replica_sets show ?thesis by simp
qed

theorem calcDeployments_rollback_witness:
  "map d_Name (calcDeployments (two_replica_sets ''default'' ''web'' 0 15
       [Fin 1, Fin 1, Fin 1, Fin 0, Fin 0, Fin 1, Fin 1, Fin 1]
       [Fin 0, Fin 0, Fin 0, Fin 1, Fin 1, Fin 0, Fin 0, Fin 0])) = [''rs-b'', ''rs-a'']
   \<and> calcDeployments_prev (two_replica_sets ''default'' ''web'' 0 15
       [Fin 1, Fin 1, Fin 1, Fin 0, Fin 0, Fin 1, Fin 1, Fin 1]
       [Fin 0, Fin 0, Fin 0, Fin 1, Fin 1, Fin 0, Fin 0, Fin 0]) = ''rs-a''"
  using calcDeployments_rollback [of "''default''" "''web''" 0 15] by simp

section \<open>Properties of the watcher pass\<close>



















section \<open>Properties of the notifications\<close>

lemma notify_step_old:
  "now - d_StartedAt (ns_deployments st ! ds_Deployment ds) > Day \<Longrightarrow>
   notify_step integrations send_ok now st ds = st"
  by (simp add: notify_step_def Let_def)

lemma notify_step_fresh:
  assumes "fresh_sent now (ns_sent st)"
  shows "fresh_sent now (ns_sent (notify_step integrations send_ok now st ds))"
proof (cases "now - d_StartedAt (ns_deployments st ! ds_Deployment ds) > Day")
  case True
  with assms show ?thesis by (simp add: notify_step_old)
next
  case False
  let ?d = "ns_deployments st ! ds_Deployment ds"
  from False have f: "now - d_StartedAt ?d \<le> Day" by simp
  have "\<exists>extra. ns_sent (notify_step integrations send_ok now st ds) = ns_sent st @ extra
          \<and> list_all (\<lambda>(ch, d, s). d_StartedAt d = d_StartedAt ?d) extra"
    unfolding notify_step_def Let_def by simp
  then obtain extra where e: "ns_sent (notify_step integrations send_ok now st ds) = ns_sent st @ extra"
    "list_all (\<lambda>(ch, d, s). d_StartedAt d = d_StartedAt ?d) extra" by blast
  from e(2) f have "fresh_sent now extra"
    unfolding fresh_sent_def list_all_iff by auto
  with assms e(1) show ?thesis by (simp add: fresh_sent_def)
qed

lemma foldl_notify_step_fresh:
  "fresh_sent now (ns_sent st) \<Longrightarrow>
   fresh_sent now (ns_sent (foldl (notify_step integrations send_ok now) st dss))"
proof (induction dss arbitrary: st)
  case Nil
  then show ?case by simp
next
  case (Cons ds dss)
  from Cons.IH [OF notify_step_fresh [OF Cons.prems]] show ?case by simp
qed

lemma notify_app_fresh:
  "fresh_sent now (ns_sent (notify_app integrations N statuses send_ok now app))"
proof (cases "N (app_Category app)")
  case True
  have "fresh_sent now (ns_sent \<lparr>ns_deployments = app_Deployments app, ns_sent = [], ns_saved = []\<rparr>)"
    by (simp add: fresh_sent_def)
  from foldl_notify_step_fresh [OF this] True show ?thesis
    by (simp add: notify_app_def)
next
  case False
  then show ?thesis by (simp add: notify_app_def fresh_sent_def)
qed

text \<open>
  C7. In a pass of the notification sender at the time \<open>now\<close>, every call of
  \<open>SendDeployment\<close>, on either channel, is for a deployment with
  \<open>now - StartedAt \<le> Day\<close>, where \<open>Day\<close> is 24 hours; and a status whose deployment
  started more than 24 hours before \<open>now\<close> leaves the state of the loop as it is: no
  notification is sent for it, nothing is saved and the deployment is not touched.
\<close>

theorem notifications_only_within_a_day:
  "(\<forall>r \<in> set (sendNotifications integrations N statuses send_ok world now).
      \<forall>(ch, d, s) \<in> set (ns_sent r). now - d_StartedAt d \<le> Day)
   \<and> (now - d_StartedAt (ns_deployments st ! ds_Deployment ds) > Day \<longrightarrow>
        notify_step integrations send_ok now st ds = st)
   \<and> Day = 24 * 3600"
proof -
  have "\<forall>r \<in> set (sendNotifications integrations N statuses send_ok world now).
      \<forall>(ch, d, s) \<in> set (ns_sent r). now - d_StartedAt d \<le> Day"
    using notify_app_fresh [of now integrations N statuses send_ok]
    unfolding sendNotifications_def fresh_sent_def list_all_iff by auto
  moreover have "Day = 24 * 3600" by (simp add: Day_def Hour_def Second_def)
  ultimately show ?thesis using notify_step_old by blast
qed

theorem notifications_only_within_a_day_witness:
  "map (\<lambda>r. map (\<lambda>(ch, d, s). (ch, d_Name d, d_StartedAt d, s)) (ns_sent r))
     (sendNotifications
        \<lparr>int_Slack = Some \<lparr>slack_Token = ''t'', slack_DefaultChannel = ''c'',
                             slack_Deployments = True\<rparr>,
          int_Teams = None\<rparr>
        (\<lambda>category. True)
        (\<lambda>app now. [\<lparr>ds_Deployment = 0, ds_State = 2\<rparr>, \<lparr>ds_Deployment = 1, ds_State = 2\<rparr>])
        (\<lambda>ch d s. True)
        \<lparr>w_Nodes = [],
          w_Applications =
            [\<lparr>app_Id = NewApplicationId ''default'' ApplicationKindDeployment ''web'',
              app_Category = [], app_Instances = [],
              app_Deployments =
                [new_deployment (NewApplicationId ''default'' ApplicationKindDeployment ''web'')
                   ''rs-a'' 1000,
                 new_deployment (NewApplicationId ''default'' ApplicationKindDeployment ''web'')
                   ''rs-b'' 199000]\<rparr>],
          w_KubeStateMetricsInstalled = True\<rparr>
        200000)
     = [[(Slack, ''rs-b'', 199000, 2)]]
   \<and> 200000 - d_StartedAt
        ([new_deployment (NewApplicationId ''default'' ApplicationKindDeployment ''web'')
             ''rs-a'' 1000] ! 0) > Day
   \<and> notify_step
        \<lparr>int_Slack = Some \<lparr>slack_Token = ''t'', slack_DefaultChannel = ''c'',
                             slack_Deployments = True\<rparr>,
          int_Teams = None\<rparr>
        (\<lambda>ch d s. True) 200000
        \<lparr>ns_deployments =
           [new_deployment (NewApplicationId ''default'' ApplicationKindDeployment ''web'')
              ''rs-a'' 1000],
         ns_sent = [], ns_saved = []\<rparr>
        \<lparr>ds_Deployment = 0, ds_State = 2\<rparr>
     = \<lparr>ns_deployments =
           [new_deployment (NewApplicationId ''default'' ApplicationKindDeployment ''web'')
              ''rs-a'' 1000],
         ns_sent = [], ns_saved = []\<rparr>"
proof -
  let ?i = "\<lparr>int_Slack = Some \<lparr>slack_Token = ''t'', slack_DefaultChannel = ''c'',
                             slack_Deployments = True\<rparr>,
          int_Teams = None\<rparr>"
  let ?st = "\<lparr>ns_deployments =
           [new_deployment (NewApplicationId ''default'' ApplicationKindDeployment ''web'')
              ''rs-a'' 1000],
         ns_sent = [], ns_saved = []\<rparr>"
  have old: "200000 - d_StartedAt (ns_deployments ?st ! ds_Deployment \<lparr>ds_Deployment = 0, ds_State = 2\<rparr>) > Day"
    by (simp add: new_deployment_def Day_def Hour_def Second_def)
  from notifications_only_within_a_day
    [where now = 200000 and st = ?st and ds = "\<lparr>ds_Deployment = 0, ds_State = 2\<rparr>"
       and integrations = ?i and send_ok = "\<lambda>ch d s. True"] old
  have 2: "notify_step ?i (\<lambda>ch d s. True) 200000 ?st \<lparr>ds_Deployment = 0, ds_State = 2\<rparr> = ?st"
    by blast
  have 1: "map (\<lambda>r. map (\<lambda>(ch, d, s). (ch, d_Name d, d_StartedAt d, s)) (ns_sent r))
     (sendNotifications ?i (\<lambda>category. True)
        (\<lambda>app now. [\<lparr>ds_Deployment = 0, ds_State = 2\<rparr>, \<lparr>ds_Deployment = 1, ds_State = 2\<rparr>])
        (\<lambda>ch d s. True)
        \<lparr>w_Nodes = [],
          w_Applications =
            [\<lparr>app_Id = NewApplicationId ''default'' ApplicationKindDeployment ''web'',
              app_Category = [], app_Instances = [],
              app_Deployments =
                [new_deployment (NewApplicationId ''default'' ApplicationKindDeployment ''web'')
                   ''rs-a'' 1000,
                 new_deployment (NewApplicationId ''default'' ApplicationKindDeployment ''web'')
                   ''rs-b'' 199000]\<rparr>],
          w_KubeStateMetricsInstalled = True\<rparr>
        200000)
     = [[(Slack, ''rs-b'', 199000, 2)]]"
    by (simp add: sendNotifications_def notify_app_def notify_step_def new_deployment_def
        Day_def Hour_def Second_def Let_def)
  from 1 2 old show ?thesis by simp
qed

section \<open>Properties of the metrics snapshots\<close>

lemma snapshot_step_cases:
  "snapshot_step LoadWorld calc shift window step cacheTo st i = st
   \<or> (\<exists>ms. snapshot_step LoadWorld calc shift window step cacheTo st i
             = ((fst st)[i := (fst st ! i)\<lparr>d_MetricsSnapshot := Some ms\<rparr>],
                snd st @ [(i, Truncate (d_FinishedAt (fst st ! i) + shift) step,
                           Truncate (Truncate (d_FinishedAt (fst st ! i) + shift) step + window) step)])
           \<and> d_MetricsSnapshot (fst st ! i) = None
           \<and> d_FinishedAt (fst st ! i) \<noteq> 0
           \<and> Truncate (Truncate (d_FinishedAt (fst st ! i) + shift) step + window) step
               \<le> (if i + 1 < length (fst st) then d_StartedAt (fst st ! (i + 1)) else cacheTo))"
proof -
  let ?d = "fst st ! i"
  let ?from = "Truncate (d_FinishedAt ?d + shift) step"
  let ?to = "Truncate (?from + window) step"
  let ?next = "(if int i < int (length (fst st)) - 1 then d_StartedAt (fst st ! (i + 1)) else cacheTo)"
  have n: "?next = (if i + 1 < length (fst st) then d_StartedAt (fst st ! (i + 1)) else cacheTo)"
    by auto
  show ?thesis
  proof (cases "d_MetricsSnapshot ?d \<noteq> None \<or> d_FinishedAt ?d = 0 \<or> ?to > ?next")
    case True
    then have "snapshot_step LoadWorld calc shift window step cacheTo st i = st"
      unfolding snapshot_step_def Let_def by auto
    then show ?thesis by simp
  next
    case False
    show ?thesis
    proof (cases "LoadWorld ?from ?to step")
      case None
      with False have "snapshot_step LoadWorld calc shift window step cacheTo st i = st"
        unfolding snapshot_step_def Let_def by auto
      then show ?thesis by simp
    next
      case (Some world)
      show ?thesis
      proof (cases "GetApplication world (d_ApplicationId ?d)")
        case None
        with False Some have "snapshot_step LoadWorld calc shift window step cacheTo st i = st"
          unfolding snapshot_step_def Let_def by auto
        then show ?thesis by simp
      next
        case A: (Some a)
        with False Some have "snapshot_step LoadWorld calc shift window step cacheTo st i
          = ((fst st)[i := ?d\<lparr>d_MetricsSnapshot := Some (calc (w_Applications world ! a) ?from ?to step)\<rparr>],
             snd st @ [(i, ?from, ?to)])"
          unfolding snapshot_step_def Let_def by auto
        moreover from False n have "d_MetricsSnapshot ?d = None" "d_FinishedAt ?d \<noteq> 0"
          "?to \<le> (if i + 1 < length (fst st) then d_StartedAt (fst st ! (i + 1)) else cacheTo)"
          by auto
        ultimately show ?thesis by blast
      qed
    qed
  qed
qed


lemma same_but_snapshot: "\<exists>ms. d = d\<lparr>d_MetricsSnapshot := ms\<rparr>"
  by (rule exI [of _ "d_MetricsSnapshot d"]) simp

lemma snapshot_inv_mono:
  assumes "snapshot_inv shift window step cacheTo orig k st"
  shows "snapshot_inv shift window step cacheTo orig (Suc k) st"
  using assms unfolding snapshot_inv_def by (auto simp: less_Suc_eq)

lemma snapshot_inv_write:
  assumes inv: "snapshot_inv shift window step cacheTo orig k (cur, lg)"
    and k: "k < length orig"
    and none: "d_MetricsSnapshot (cur ! k) = None"
    and fin: "d_FinishedAt (cur ! k) \<noteq> 0"
    and le: "Truncate (Truncate (d_FinishedAt (cur ! k) + shift) step + window) step
               \<le> (if k + 1 < length cur then d_StartedAt (cur ! (k + 1)) else cacheTo)"
  shows "snapshot_inv shift window step cacheTo orig (Suc k)
           (cur[k := (cur ! k)\<lparr>d_MetricsSnapshot := Some ms\<rparr>],
            lg @ [(k, Truncate (d_FinishedAt (cur ! k) + shift) step,
                    Truncate (Truncate (d_FinishedAt (cur ! k) + shift) step + window) step)])"
proof -
  from inv have len: "length cur = length orig"
    and shape: "\<forall>j < length orig. \<exists>ms. cur ! j = (orig ! j)\<lparr>d_MetricsSnapshot := ms\<rparr>"
    and rest: "\<forall>j < length orig. k \<le> j \<longrightarrow> cur ! j = orig ! j"
    and kept: "\<forall>j < length orig. d_MetricsSnapshot (orig ! j) \<noteq> None \<longrightarrow> cur ! j = orig ! j"
    and logged: "\<forall>e \<in> set lg. snapshot_window_ok shift window step cacheTo orig e
            \<and> fst e < k \<and> d_MetricsSnapshot (cur ! fst e) \<noteq> None"
    and dist: "distinct (map fst lg)"
    unfolding snapshot_inv_def by simp_all
  let ?cur = "cur[k := (cur ! k)\<lparr>d_MetricsSnapshot := Some ms\<rparr>]"
  let ?from = "Truncate (d_FinishedAt (cur ! k) + shift) step"
  let ?to = "Truncate (?from + window) step"
  from rest k have ck: "cur ! k = orig ! k" by simp
  have next': "Suc k < length orig \<Longrightarrow> cur ! Suc k = orig ! Suc k"
    using rest by simp
  have 1: "length ?cur = length orig" using len by simp
  have 2: "\<forall>j < length orig. \<exists>ms. ?cur ! j = (orig ! j)\<lparr>d_MetricsSnapshot := ms\<rparr>"
  proof (intro allI impI)
    fix j assume j: "j < length orig"
    show "\<exists>ms. ?cur ! j = (orig ! j)\<lparr>d_MetricsSnapshot := ms\<rparr>"
    proof (cases "j = k")
      case True
      with ck k len show ?thesis by auto
    next
      case False
      with shape j show ?thesis by simp
    qed
  qed
  have 3: "\<forall>j < length orig. Suc k \<le> j \<longrightarrow> ?cur ! j = orig ! j"
    using rest by simp
  have 4: "\<forall>j < length orig. d_MetricsSnapshot (orig ! j) \<noteq> None \<longrightarrow> ?cur ! j = orig ! j"
  proof (intro allI impI)
    fix j assume j: "j < length orig" and s: "d_MetricsSnapshot (orig ! j) \<noteq> None"
    with none ck have "j \<noteq> k" by auto
    with kept j s show "?cur ! j = orig ! j" by simp
  qed
  have new: "snapshot_window_ok shift window step cacheTo orig (k, ?from, ?to)"
    using k none fin le ck len next' by (auto simp: snapshot_window_ok_def)
  have 5: "\<forall>e \<in> set (lg @ [(k, ?from, ?to)]).
             snapshot_window_ok shift window step cacheTo orig e
             \<and> fst e < Suc k \<and> d_MetricsSnapshot (?cur ! fst e) \<noteq> None"
  proof
    fix e assume "e \<in> set (lg @ [(k, ?from, ?to)])"
    then consider "e \<in> set lg" | "e = (k, ?from, ?to)" by auto
    then show "snapshot_window_ok shift window step cacheTo orig e
             \<and> fst e < Suc k \<and> d_MetricsSnapshot (?cur ! fst e) \<noteq> None"
    proof cases
      case 1
      with logged have "snapshot_window_ok shift window step cacheTo orig e" "fst e < k"
        "d_MetricsSnapshot (cur ! fst e) \<noteq> None" by auto
      then show ?thesis by simp
    next
      case 2
      with new k len show ?thesis by simp
    qed
  qed
  have 6: "distinct (map fst (lg @ [(k, ?from, ?to)]))"
    using dist logged by auto
  from 1 2 3 4 5 6 show ?thesis
    unfolding snapshot_inv_def by simp
qed

lemma snapshot_step_inv:
  assumes "snapshot_inv shift window step cacheTo orig k st" "k < length orig"
  shows "snapshot_inv shift window step cacheTo orig (Suc k)
           (snapshot_step LoadWorld calc shift window step cacheTo st k)"
proof -
  obtain cur lg where st: "st = (cur, lg)" by (cases st)
  from snapshot_step_cases [of LoadWorld calc shift window step cacheTo st k]
  show ?thesis
  proof
    assume "snapshot_step LoadWorld calc shift window step cacheTo st k = st"
    with snapshot_inv_mono [OF assms(1)] show ?thesis by simp
  next
    assume "\<exists>ms. snapshot_step LoadWorld calc shift window step cacheTo st k
             = ((fst st)[k := (fst st ! k)\<lparr>d_MetricsSnapshot := Some ms\<rparr>],
                snd st @ [(k, Truncate (d_FinishedAt (fst st ! k) + shift) step,
                           Truncate (Truncate (d_FinishedAt (fst st ! k) + shift) step + window) step)])
           \<and> d_MetricsSnapshot (fst st ! k) = None
           \<and> d_FinishedAt (fst st ! k) \<noteq> 0
           \<and> Truncate (Truncate (d_FinishedAt (fst st ! k) + shift) step + window) step
               \<le> (if k + 1 < length (fst st) then d_StartedAt (fst st ! (k + 1)) else cacheTo)"
    then obtain ms where
      "snapshot_step LoadWorld calc shift window step cacheTo st k
             = ((fst st)[k := (fst st ! k)\<lparr>d_MetricsSnapshot := Some ms\<rparr>],
                snd st @ [(k, Truncate (d_FinishedAt (fst st ! k) + shift) step,
                           Truncate (Truncate (d_FinishedAt (fst st ! k) + shift) step + window) step)])"
      "d_MetricsSnapshot (fst st ! k) = None" "d_FinishedAt (fst st ! k) \<noteq> 0"
      "Truncate (Truncate (d_FinishedAt (fst st ! k) + shift) step + window) step
               \<le> (if k + 1 < length (fst st) then d_StartedAt (fst st ! (k + 1)) else cacheTo)"
      by blast
    then have
      e: "snapshot_step LoadWorld calc shift window step cacheTo st k
             = (cur[k := (cur ! k)\<lparr>d_MetricsSnapshot := Some ms\<rparr>],
                lg @ [(k, Truncate (d_FinishedAt (cur ! k) + shift) step,
                           Truncate (Truncate (d_FinishedAt (cur ! k) + shift) step + window) step)])"
      and c: "d_MetricsSnapshot (cur ! k) = None" "d_FinishedAt (cur ! k) \<noteq> 0"
         "Truncate (Truncate (d_FinishedAt (cur ! k) + shift) step + window) step
               \<le> (if k + 1 < length cur then d_StartedAt (cur ! (k + 1)) else cacheTo)"
      unfolding st fst_conv snd_conv by blast+
    from snapshot_inv_write [OF assms(1) [unfolded st] assms(2) c] e show ?thesis by simp
  qed
qed

lemma snapshot_foldl_inv:
  "k \<le> length orig \<Longrightarrow>
   snapshot_inv shift window step cacheTo orig k
     (foldl (snapshot_step LoadWorld calc shift window step cacheTo) (orig, []) [0..<k])"
proof (induction k)
  case 0
  have "\<forall>j < length orig. \<exists>ms. orig ! j = (orig ! j)\<lparr>d_MetricsSnapshot := ms\<rparr>"
    using same_but_snapshot by blast
  then show ?case by (simp add: snapshot_inv_def)
next
  case (Suc k)
  then have "snapshot_inv shift window step cacheTo orig k
     (foldl (snapshot_step LoadWorld calc shift window step cacheTo) (orig, []) [0..<k])"
    and "k < length orig" by simp_all
  from snapshot_step_inv [OF this] show ?case by simp
qed

lemma snapshot_deployments_inv:
  "snapshot_inv shift window step cacheTo deployments (length deployments)
     (snapshot_deployments LoadWorld calc shift window step cacheTo deployments)"
  unfolding snapshot_deployments_def by (rule snapshot_foldl_inv) simp


lemma snapshot_deployments_deferred:
  "snapshots_deferred shift window step cacheTo deployments
     (fst (snapshot_deployments LoadWorld calc shift window step cacheTo deployments))
     (snd (snapshot_deployments LoadWorld calc shift window step cacheTo deployments))"
  using snapshot_deployments_inv [of shift window step cacheTo deployments LoadWorld calc]
  unfolding snapshot_inv_def snapshots_deferred_def by blast

lemma snapshots_not_recomputed:
  assumes 1: "snapshots_deferred shift window step cacheTo deployments deployments' computed"
    and 2: "snapshots_deferred shift' window' step' cacheTo' deployments' deployments'' computed'"
  shows "\<forall>e \<in> set computed'. fst e \<notin> fst ` set computed"
proof
  fix e assume e: "e \<in> set computed'"
  with 2 have "snapshot_window_ok shift' window' step' cacheTo' deployments' e"
    unfolding snapshots_deferred_def by blast
  then have n: "d_MetricsSnapshot (deployments' ! fst e) = None"
    by (cases e) (simp add: snapshot_window_ok_def)
  show "fst e \<notin> fst ` set computed"
  proof
    assume "fst e \<in> fst ` set computed"
    then obtain e' where "e' \<in> set computed" "fst e' = fst e" by auto
    with 1 have "d_MetricsSnapshot (deployments' ! fst e) \<noteq> None"
      unfolding snapshots_deferred_def by metis
    with n show False by simp
  qed
qed

lemma snapshotDeploymentMetrics_deferred:
  assumes "r \<in> set (snapshotDeploymentMetrics LoadWorld calc shift window step GetTo applications)"
  shows "\<exists>app \<in> set applications.
           fst r = app\<lparr>app_Deployments := app_Deployments (fst r)\<rparr>
           \<and> (snd r = [] \<and> fst r = app
               \<or> (\<exists>cacheTo. getCacheClient GetTo = Some cacheTo
                     \<and> snapshots_deferred shift window step cacheTo
                          (app_Deployments app) (app_Deployments (fst r)) (snd r)))"
proof (cases "getCacheClient GetTo")
  case None
  with assms obtain app where "app \<in> set applications" "r = (app, [])"
    by (auto simp: snapshotDeploymentMetrics_def split: if_splits)
  moreover have "app = app\<lparr>app_Deployments := app_Deployments app\<rparr>" by simp
  ultimately show ?thesis by (intro bexI [of _ app]) simp_all
next
  case (Some cacheTo)
  with assms obtain app where a: "app \<in> set applications"
    and r: "r = (app\<lparr>app_Deployments :=
                  fst (snapshot_deployments LoadWorld calc shift window step cacheTo (app_Deployments app))\<rparr>,
               snd (snapshot_deployments LoadWorld calc shift window step cacheTo (app_Deployments app)))"
    by (auto simp: snapshotDeploymentMetrics_def Let_def split: if_splits)
  from snapshot_deployments_deferred [of shift window step cacheTo "app_Deployments app" LoadWorld calc]
  have "snapshots_deferred shift window step cacheTo
          (app_Deployments app) (app_Deployments (fst r)) (snd r)"
    unfolding r by simp
  moreover have "fst r = app\<lparr>app_Deployments := app_Deployments (fst r)\<rparr>"
    unfolding r by simp
  ultimately show ?thesis using a Some by blast
qed

text \<open>
  C6. In a pass of \<open>snapshotDeploymentMetrics\<close> over the deployments of an
  application, a deployment that has a snapshot attached is left as it is and no
  snapshot is computed for it; a snapshot is computed for no deployment twice; and every
  snapshot computed is for a deployment without a snapshot whose window ends no later
  than the start of the next deployment, or than the latest time of the cache for the
  last deployment. A later pass over the result, whatever the cache and the settings
  then, computes no snapshot for a deployment that got one in this pass. The same holds
  for every application of the pass; with no usable cache nothing is computed.
\<close>

theorem snapshot_once_and_not_early:
  "snapshots_deferred shift window step cacheTo deployments
     (fst (snapshot_deployments LoadWorld calc shift window step cacheTo deployments))
     (snd (snapshot_deployments LoadWorld calc shift window step cacheTo deployments))
   \<and> (\<forall>e \<in> set (snd (snapshot_deployments LoadWorld' calc' shift' window' step' cacheTo'
                        (fst (snapshot_deployments LoadWorld calc shift window step cacheTo
                                deployments)))).
        fst e \<notin> fst ` set (snd (snapshot_deployments LoadWorld calc shift window step cacheTo
                                   deployments)))
   \<and> (\<forall>r \<in> set (snapshotDeploymentMetrics LoadWorld calc shift window step GetTo applications).
        \<exists>app \<in> set applications.
           fst r = app\<lparr>app_Deployments := app_Deployments (fst r)\<rparr>
           \<and> (snd r = [] \<and> fst r = app
               \<or> (\<exists>cacheTo. getCacheClient GetTo = Some cacheTo
                     \<and> snapshots_deferred shift window step cacheTo
                          (app_Deployments app) (app_Deployments (fst r)) (snd r))))"
proof -
  note 1 = snapshot_deployments_deferred [of shift window step cacheTo deployments LoadWorld calc]
  note 2 = snapshot_deployments_deferred [of shift' window' step' cacheTo'
     "fst (snapshot_deployments LoadWorld calc shift window step cacheTo deployments)" LoadWorld' calc']
  from 1 snapshots_not_recomputed [OF 1 2] snapshotDeploymentMetrics_deferred
  show ?thesis by blast
qed


lemmas snapshot_eval =
  snapshot_deployments_def snapshot_step_def example_LoadWorld_def example_calc_def
  example_deployments_def Truncate_def go_mod_def go_div_def GetApplication_def
  NewApplication_def new_deployment_def NewApplicationId_def Let_def upt_rec

theorem snapshot_once_and_not_early_witness:
  "snd (snapshot_deployments example_LoadWorld example_calc 600 1200 15 5500 example_deployments)
     = [(0, 1590, 2790)]
   \<and> map d_MetricsSnapshot
        (fst (snapshot_deployments example_LoadWorld example_calc 600 1200 15 5500
                example_deployments))
     = [Some \<lparr>ms_Timestamp = 2790, ms_Duration = 1200\<rparr>, None]
   \<and> snd (snapshot_deployments example_LoadWorld example_calc 600 1200 15 10000
             (fst (snapshot_deployments example_LoadWorld example_calc 600 1200 15 5500
                     example_deployments)))
     = [(1, 5595, 6795)]
   \<and> snapshots_deferred 600 1200 15 5500 example_deployments
        (fst (snapshot_deployments example_LoadWorld example_calc 600 1200 15 5500
                example_deployments))
        (snd (snapshot_deployments example_LoadWorld example_calc 600 1200 15 5500
                example_deployments))"
proof -
  have 1: "snapshot_deployments example_LoadWorld example_calc 600 1200 15 5500 example_deployments
     = ([(example_deployments ! 0)\<lparr>d_MetricsSnapshot :=
            Some \<lparr>ms_Timestamp = 2790, ms_Duration = 1200\<rparr>\<rparr>,
         example_deployments ! 1], [(0, 1590, 2790)])"
    by (simp add: snapshot_eval)
  have 2: "snd (snapshot_deployments example_LoadWorld example_calc 600 1200 15 10000
             [(example_deployments ! 0)\<lparr>d_MetricsSnapshot :=
                 Some \<lparr>ms_Timestamp = 2790, ms_Duration = 1200\<rparr>\<rparr>,
              example_deployments ! 1])
     = [(1, 5595, 6795)]"
    by (simp add: snapshot_eval)
  have 3: "d_MetricsSnapshot (example_deployments ! 1) = None"
    by (simp add: example_deployments_def new_deployment_def)
  from snapshot_once_and_not_early
    [of 600 1200 15 5500 example_deployments example_LoadWorld example_calc]
  have "snapshots_deferred 600 1200 15 5500 example_deployments
        (fst (snapshot_deployments example_LoadWorld example_calc 600 1200 15 5500
                example_deployments))
        (snd (snapshot_deployments example_LoadWorld example_calc 600 1200 15 5500
                example_deployments))"
    by blast
  with 1 2 3 show ?thesis by simp
qed

end
